theory Spec2Isabelle
  imports Main
begin

section \<open>Regular expressions of the classifier\<close>

text \<open>
  A JavaScript string is modelled as a \<^typ>\<open>string\<close> holding the bytes of its UTF-8
  encoding. The classifier's regular expressions have no flags, so a word character is one
  of \<open>[A-Za-z0-9_]\<close> and every other character, ASCII or not, is a non-word character.
\<close>

definition isWordChar :: "char \<Rightarrow> bool" where
  "isWordChar c =
     (let n = (of_char c :: nat)
      in (48 \<le> n \<and> n \<le> 57) \<or> (65 \<le> n \<and> n \<le> 90) \<or> n = 95 \<or> (97 \<le> n \<and> n \<le> 122))"

text \<open>
  \<open>toLowerCase\<close>. An ASCII capital becomes its small letter. Two characters outside
  ASCII have a lower case with an ASCII letter in it: the Kelvin sign U+212A (bytes
  E2 84 AA) becomes \<open>k\<close>, and the capital I with a dot above U+0130 (bytes C4 B0) becomes
  \<open>i\<close> followed by the combining dot U+0307 (bytes CC 87). Every other character outside
  ASCII is left as it is: its lower case is again outside ASCII, a non-word character that
  no pattern names, so no match depends on it.
\<close>

definition toLowerChar :: "char \<Rightarrow> char" where
  "toLowerChar c =
     (let n = (of_char c :: nat)
      in if 65 \<le> n \<and> n \<le> 90 then char_of (n + 32) else c)"

fun toLowerCase :: "string \<Rightarrow> string" where
  "toLowerCase [] = []"
| "toLowerCase (c # cs) =
     (if c = CHR 0xE2 \<and> take 2 cs = [CHR 0x84, CHR 0xAA]
      then CHR ''k'' # toLowerCase (drop 2 cs)
      else if c = CHR 0xC4 \<and> take 1 cs = [CHR 0xB0]
      then CHR ''i'' # CHR 0xCC # CHR 0x87 # toLowerCase (drop 1 cs)
      else toLowerChar c # toLowerCase cs)"

text \<open>
  The assertion \<open>\b\<close> at position \<open>i\<close> of \<open>s\<close>: exactly one of the characters
  before and after the position is a word character (the ends of the text count as
  non-word characters).
\<close>

definition isWordBoundary :: "string \<Rightarrow> nat \<Rightarrow> bool" where
  "isWordBoundary s i =
     (let a = (0 < i \<and> i \<le> length s \<and> isWordChar (s ! (i - 1)));
          b = (i < length s \<and> isWordChar (s ! i))
      in a \<noteq> b)"

text \<open>The literal \<open>w\<close> occurs in \<open>s\<close> starting at position \<open>i\<close>.\<close>

definition literalAt :: "string \<Rightarrow> string \<Rightarrow> nat \<Rightarrow> bool" where
  "literalAt w s i = (i + length w \<le> length s \<and> take (length w) (drop i s) = w)"

text \<open>
  The two shapes of pattern the classifier uses: \<open>/\b(w1|w2|...)\b/\<close>, an alternation of
  literals between two word boundaries, and \<open>/\?/\<close>, a literal.
\<close>

datatype regex = WordAlt "string list" | Literal string

text \<open>
  \<open>pattern.test(body)\<close>: the pattern matches at some start position. The matcher
  backtracks over the alternatives, so the alternation matches at a position as soon as
  one alternative does with a word boundary behind it.
\<close>

fun test :: "regex \<Rightarrow> string \<Rightarrow> bool" where
  "test (WordAlt ws) s =
     list_ex (\<lambda>i. isWordBoundary s i \<and>
                   list_ex (\<lambda>w. literalAt w s i \<and> isWordBoundary s (i + length w)) ws)
             [0..<Suc (length s)]"
| "test (Literal w) s = list_ex (\<lambda>i. literalAt w s i) [0..<Suc (length s)]"

section \<open>The classifier of data-fetcher.js\<close>

text \<open>The verdict object: \<open>type\<close> and \<open>severity\<close> are absent when not actionable.\<close>

record verdict =
  actionable :: bool
  vtype :: "string option"
  severity :: "string option"

definition notActionable :: verdict where
  "notActionable = \<lparr>actionable = False, vtype = None, severity = None\<rparr>"

definition highSeverityPatterns :: "regex list" where
  "highSeverityPatterns =
     [WordAlt [''fix'', ''error'', ''bug'', ''broken'', ''issue'', ''problem'', ''wrong''],
      WordAlt [''security'', ''vulnerability'', ''exploit'', ''dangerous''],
      WordAlt [''performance'', ''slow'', ''inefficient'', ''optimize''],
      WordAlt [''memory leak'', ''deadlock'', ''race condition'']]"

definition mediumSeverityPatterns :: "regex list" where
  "mediumSeverityPatterns =
     [WordAlt [''should'', ''must'', ''need to'', ''have to'', ''required''],
      WordAlt [''refactor'', ''restructure'', ''reorganize'', ''cleanup''],
      WordAlt [''test'', ''testing'', ''unit test'', ''integration test''],
      WordAlt [''documentation'', ''docs'', ''comment'', ''explain''],
      WordAlt [''style'', ''format'', ''convention'', ''standard'']]"

definition lowSeverityPatterns :: "regex list" where
  "lowSeverityPatterns =
     [WordAlt [''consider'', ''suggest'', ''might'', ''could'', ''perhaps''],
      WordAlt [''improvement'', ''enhancement'', ''better''],
      WordAlt [''question'', ''clarification'', ''understand''],
      WordAlt [''naming'', ''variable'', ''function name'']]"

definition questionPatterns :: "regex list" where
  "questionPatterns =
     [Literal ''?'',
      WordAlt [''why'', ''how'', ''what'', ''when'', ''where'', ''which''],
      WordAlt [''can you'', ''could you'', ''would you'']]"

definition requestPatterns :: "regex list" where
  "requestPatterns =
     [WordAlt [''please'', ''add'', ''remove'', ''change'', ''update'', ''modify''],
      WordAlt [''implement'', ''create'', ''build'', ''develop'']]"

text \<open>
  One \<open>for (const pattern of patterns) if (pattern.test(body)) return ...\<close> loop: the
  loop returns at the first pattern that matches, and falls through when none does.
\<close>

fun firstMatch :: "regex list \<Rightarrow> string \<Rightarrow> bool" where
  "firstMatch [] body = False"
| "firstMatch (p # ps) body = (if test p body then True else firstMatch ps body)"

text \<open>
  \<open>isCommentActionable(commentBody)\<close> of data-fetcher.js. The body is a string or
  \<open>null\<close>; \<open>!commentBody\<close> holds of \<open>null\<close> and of the empty string.
\<close>

definition isCommentActionable :: "string option \<Rightarrow> verdict" where
  "isCommentActionable commentBody =
     (case commentBody of
        None \<Rightarrow> notActionable
      | Some cb \<Rightarrow>
          if cb = [] then notActionable
          else
            let body = toLowerCase cb
            in if firstMatch highSeverityPatterns body
                 then \<lparr>actionable = True, vtype = Some ''fix_required'', severity = Some ''high''\<rparr>
               else if firstMatch mediumSeverityPatterns body
                 then \<lparr>actionable = True, vtype = Some ''improvement_needed'',
                        severity = Some ''medium''\<rparr>
               else if firstMatch lowSeverityPatterns body
                 then \<lparr>actionable = True, vtype = Some ''suggestion'', severity = Some ''low''\<rparr>
               else if firstMatch questionPatterns body
                 then \<lparr>actionable = True, vtype = Some ''question'', severity = Some ''medium''\<rparr>
               else if firstMatch requestPatterns body
                 then \<lparr>actionable = True, vtype = Some ''request'', severity = Some ''medium''\<rparr>
               else notActionable)"

section \<open>The classifier of github-server.js\<close>

text \<open>
  The server carries its own copy of the function and of the five pattern tables; they
  are transcribed here from that file, not from the fetcher's.
\<close>

definition server_highSeverityPatterns :: "regex list" where
  "server_highSeverityPatterns =
     [WordAlt [''fix'', ''error'', ''bug'', ''broken'', ''issue'', ''problem'', ''wrong''],
      WordAlt [''security'', ''vulnerability'', ''exploit'', ''dangerous''],
      WordAlt [''performance'', ''slow'', ''inefficient'', ''optimize''],
      WordAlt [''memory leak'', ''deadlock'', ''race condition'']]"

definition server_mediumSeverityPatterns :: "regex list" where
  "server_mediumSeverityPatterns =
     [WordAlt [''should'', ''must'', ''need to'', ''have to'', ''required''],
      WordAlt [''refactor'', ''restructure'', ''reorganize'', ''cleanup''],
      WordAlt [''test'', ''testing'', ''unit test'', ''integration test''],
      WordAlt [''documentation'', ''docs'', ''comment'', ''explain''],
      WordAlt [''style'', ''format'', ''convention'', ''standard'']]"

definition server_lowSeverityPatterns :: "regex list" where
  "server_lowSeverityPatterns =
     [WordAlt [''consider'', ''suggest'', ''might'', ''could'', ''perhaps''],
      WordAlt [''improvement'', ''enhancement'', ''better''],
      WordAlt [''question'', ''clarification'', ''understand''],
      WordAlt [''naming'', ''variable'', ''function name'']]"

definition server_questionPatterns :: "regex list" where
  "server_questionPatterns =
     [Literal ''?'',
      WordAlt [''why'', ''how'', ''what'', ''when'', ''where'', ''which''],
      WordAlt [''can you'', ''could you'', ''would you'']]"

definition server_requestPatterns :: "regex list" where
  "server_requestPatterns =
     [WordAlt [''please'', ''add'', ''remove'', ''change'', ''update'', ''modify''],
      WordAlt [''implement'', ''create'', ''build'', ''develop'']]"

definition server_isCommentActionable :: "string option \<Rightarrow> verdict" where
  "server_isCommentActionable commentBody =
     (case commentBody of
        None \<Rightarrow> notActionable
      | Some cb \<Rightarrow>
          if cb = [] then notActionable
          else
            let body = toLowerCase cb
            in if firstMatch server_highSeverityPatterns body
                 then \<lparr>actionable = True, vtype = Some ''fix_required'', severity = Some ''high''\<rparr>
               else if firstMatch server_mediumSeverityPatterns body
                 then \<lparr>actionable = True, vtype = Some ''improvement_needed'',
                        severity = Some ''medium''\<rparr>
               else if firstMatch server_lowSeverityPatterns body
                 then \<lparr>actionable = True, vtype = Some ''suggestion'', severity = Some ''low''\<rparr>
               else if firstMatch server_questionPatterns body
                 then \<lparr>actionable = True, vtype = Some ''question'', severity = Some ''medium''\<rparr>
               else if firstMatch server_requestPatterns body
                 then \<lparr>actionable = True, vtype = Some ''request'', severity = Some ''medium''\<rparr>
               else notActionable)"

section \<open>The scheduler's time gate\<close>

text \<open>
  What the code reads from \<open>new Date()\<close>: \<open>getDay()\<close> (0 is Sunday), \<open>getHours()\<close>
  and \<open>getMinutes()\<close>, in local time.
\<close>

record local_time =
  getDay :: nat
  getHours :: nat
  getMinutes :: nat

record office_hours =
  startHour :: nat
  endHour :: nat
  workdays :: "nat list"

definition officeHours :: office_hours where
  "officeHours = \<lparr>startHour = 9, endHour = 18, workdays = [1, 2, 3, 4, 5]\<rparr>"

definition isOfficeHours :: "local_time \<Rightarrow> bool" where
  "isOfficeHours now =
     (let hour = getHours now; day = getDay now
      in day \<in> set (workdays officeHours) \<and>
         hour \<ge> startHour officeHours \<and>
         hour < endHour officeHours)"

text \<open>
  The callback of \<open>setInterval\<close>, run once a minute: does this run start a fetch? The
  callback reads the clock (\<open>now\<close>) and \<open>isOfficeHours\<close> reads it again
  (\<open>officeNow\<close>).
\<close>

definition intervalCallback :: "local_time \<Rightarrow> local_time \<Rightarrow> bool" where
  "intervalCallback now officeNow =
     (isOfficeHours officeNow \<and> getHours now mod 3 = 0 \<and> getMinutes now = 0)"

text \<open>The fetch \<open>startScheduledFetcher\<close> starts at once, when the process starts.\<close>

definition initialFetch :: "local_time \<Rightarrow> bool" where
  "initialFetch now = isOfficeHours now"

section \<open>What the GitHub CLI returns\<close>

text \<open>
  A point in time is its number of milliseconds since the epoch, what \<open>Date.now()\<close>
  returns and what the comparison \<open>new Date(x) >= new Date(y)\<close> compares. A date field
  of a reply is \<open>None\<close> when it is absent, empty or not a date: the comparison of an
  invalid date is false.
\<close>

type_synonym timestamp = int

text \<open>A JavaScript \<open>Error\<close> with its message.\<close>

datatype error = Error string

text \<open>The reply of \<open>gh repo view NAME --json name,owner,url,updatedAt,pushedAt\<close>.\<close>

record repo_data =
  repo_name :: string
  repo_owner_login :: string
  repo_url :: string
  repo_updatedAt :: "timestamp option"
  repo_pushedAt :: "timestamp option"

text \<open>An element of the reply of \<open>gh pr list --json number,title,author,...\<close>.\<close>

record pull_request =
  pr_number :: nat
  pr_title :: string
  pr_author_login :: string
  pr_createdAt :: "timestamp option"
  pr_updatedAt :: "timestamp option"
  pr_url :: string
  pr_reviewDecision :: string
  pr_isDraft :: bool

text \<open>
  An element of the reply of \<open>gh api repos/O/R/pulls/N/comments\<close>. Here and in the
  next two records the author object (\<open>user\<close>, \<open>author\<close>) may be \<open>null\<close>: the field
  is its \<open>login\<close>, or \<open>None\<close> when there is no author object. The body may be
  \<open>null\<close> too.
\<close>

record review_comment =
  rc_id :: string
  rc_user_login :: "string option"
  rc_body :: "string option"
  rc_created_at :: string
  rc_path :: string
  rc_line :: "nat option"
  rc_html_url :: string

text \<open>An element of \<open>comments\<close> in the reply of \<open>gh pr view N --json comments\<close>.\<close>

record general_comment =
  gc_id :: string
  gc_author_login :: "string option"
  gc_body :: "string option"
  gc_createdAt :: string

text \<open>An element of the reply of \<open>gh api repos/O/R/pulls/N/reviews\<close>.\<close>

record review =
  rv_id :: string
  rv_user_login :: "string option"
  rv_body :: "string option"
  rv_state :: string
  rv_submitted_at :: string
  rv_html_url :: string

text \<open>
  The external program, one function for each command line the fetcher builds, applied to
  the values the command line interpolates. \<open>Inl m\<close> is a failed call (a non-zero exit, a
  timeout, an output that is not JSON) with its message; \<open>Inr\<close> carries the parsed reply.
  The \<open>comments\<close> field of the reply of \<open>gh pr view\<close> may be absent.
\<close>

record github =
  gh_repo_view :: "string \<Rightarrow> string + repo_data"
  gh_pr_list :: "string \<Rightarrow> string \<Rightarrow> string + pull_request list"
  gh_pulls_comments :: "string \<Rightarrow> string \<Rightarrow> nat \<Rightarrow> string + review_comment list"
  gh_pr_view_comments :: "string \<Rightarrow> string \<Rightarrow> nat \<Rightarrow> string + general_comment list option"
  gh_pulls_reviews :: "string \<Rightarrow> string \<Rightarrow> nat \<Rightarrow> string + review list"

text \<open>
  \<open>executeGhCommand\<close>: a failure of the command or of \<open>JSON.parse\<close> is thrown again
  as \<open>new Error(`GitHub CLI error: ${error.message}`)\<close>.
\<close>

definition executeGhCommand :: "string + 'a \<Rightarrow> error + 'a" where
  "executeGhCommand reply =
     (case reply of
        Inl message \<Rightarrow> Inl (Error (''GitHub CLI error: '' @ message))
      | Inr result \<Rightarrow> Inr result)"

text \<open>
  The clock is an input too. The refresh reads it once for each configured repository
  (line 68), once for \<open>lastUpdate\<close> (line 253) and once for each repository it lists the
  pull requests of (line 262); each reading is named by what is being handled.
\<close>

record clock =
  repoCheckedAt :: "string \<Rightarrow> timestamp"
  fetchStartedAt :: timestamp
  prsListedAt :: "string \<Rightarrow> string \<Rightarrow> timestamp"

definition thirtyDays :: int where
  "thirtyDays = 30 * 24 * 60 * 60 * 1000"

section \<open>getRepositoriesToMonitor\<close>

definition reposToMonitor :: "string list" where
  "reposToMonitor = [''h1-aot/aot-base'', ''ppaul-h-aot/MRToolGH'']"

text \<open>
  The loop \<open>for (const repoName of reposToMonitor)\<close>, with \<open>repos\<close> the array built so
  far. The \<open>catch\<close> of a failed call logs and goes on to the next name.
\<close>

fun monitorLoop :: "github \<Rightarrow> clock \<Rightarrow> string list \<Rightarrow> repo_data list \<Rightarrow> repo_data list" where
  "monitorLoop gh ck [] repos = repos"
| "monitorLoop gh ck (repoName # rest) repos =
     (case executeGhCommand (gh_repo_view gh repoName) of
        Inl err \<Rightarrow> monitorLoop gh ck rest repos
      | Inr repoData \<Rightarrow>
          let thirtyDaysAgo = repoCheckedAt ck repoName - thirtyDays
          in if (case repo_pushedAt repoData of
                   None \<Rightarrow> False
                 | Some pushedAt \<Rightarrow> pushedAt \<ge> thirtyDaysAgo)
             then monitorLoop gh ck rest (repos @ [repoData])
             else monitorLoop gh ck rest repos)"

definition getRepositoriesToMonitor :: "github \<Rightarrow> clock \<Rightarrow> repo_data list" where
  "getRepositoriesToMonitor gh ck = monitorLoop gh ck reposToMonitor []"

section \<open>getActionableComments\<close>

text \<open>An element of \<open>actionableComments\<close>; a field an entry does not set is \<open>None\<close>.\<close>

record actionable_comment =
  ac_id :: string
  ac_type :: string
  ac_author :: string
  ac_body :: "string option"
  ac_createdAt :: string
  ac_path :: "string option"
  ac_line :: "nat option"
  ac_state :: "string option"
  ac_url :: string
  ac_actionType :: "string option"
  ac_severity :: "string option"

text \<open>A number as a template literal prints it.\<close>

function decimal :: "nat \<Rightarrow> string" where
  "decimal n =
     (if n < 10 then [char_of (48 + n)]
      else decimal (n div 10) @ [char_of (48 + n mod 10)])"
  by pat_completeness auto
termination
  by (relation "measure id") auto

text \<open>
  The objects the three \<open>forEach\<close> loops push onto \<open>actionableComments\<close>, one for
  each kind of comment, with the verdict of the classifier on the body. Building the
  object reads \<open>comment.user.login\<close> (\<open>comment.author.login\<close>,
  \<open>review.user.login\<close>), which throws a \<open>TypeError\<close> when the author object is
  \<open>null\<close>.
\<close>

definition nullLogin :: error where
  "nullLogin = Error ''Cannot read properties of null (reading login)''"

definition reviewCommentEntry :: "review_comment \<Rightarrow> error + actionable_comment" where
  "reviewCommentEntry comment =
     (let actionable = isCommentActionable (rc_body comment)
      in case rc_user_login comment of
           None \<Rightarrow> Inl nullLogin
         | Some login \<Rightarrow>
             Inr \<lparr>ac_id = rc_id comment,
                  ac_type = ''review_comment'',
                  ac_author = login,
                  ac_body = rc_body comment,
                  ac_createdAt = rc_created_at comment,
                  ac_path = Some (rc_path comment),
                  ac_line = rc_line comment,
                  ac_state = None,
                  ac_url = rc_html_url comment,
                  ac_actionType = vtype actionable,
                  ac_severity = severity actionable\<rparr>)"

definition generalCommentEntry ::
  "string \<Rightarrow> string \<Rightarrow> nat \<Rightarrow> general_comment \<Rightarrow> error + actionable_comment" where
  "generalCommentEntry owner repo prNumber comment =
     (let actionable = isCommentActionable (gc_body comment)
      in case gc_author_login comment of
           None \<Rightarrow> Inl nullLogin
         | Some login \<Rightarrow>
             Inr \<lparr>ac_id = gc_id comment,
                  ac_type = ''general_comment'',
                  ac_author = login,
                  ac_body = gc_body comment,
                  ac_createdAt = gc_createdAt comment,
                  ac_path = None,
                  ac_line = None,
                  ac_state = None,
                  ac_url = ''https://github.com/'' @ owner @ ''/'' @ repo @ ''/pull/'' @
                           decimal prNumber @ ''#issuecomment-'' @ gc_id comment,
                  ac_actionType = vtype actionable,
                  ac_severity = severity actionable\<rparr>)"

definition reviewEntry :: "review \<Rightarrow> error + actionable_comment" where
  "reviewEntry review =
     (let actionable = isCommentActionable (rv_body review)
      in case rv_user_login review of
           None \<Rightarrow> Inl nullLogin
         | Some login \<Rightarrow>
             Inr \<lparr>ac_id = rv_id review,
                  ac_type = ''review'',
                  ac_author = login,
                  ac_body = rv_body review,
                  ac_createdAt = rv_submitted_at review,
                  ac_path = None,
                  ac_line = None,
                  ac_state = Some (rv_state review),
                  ac_url = rv_html_url review,
                  ac_actionType = vtype actionable,
                  ac_severity = severity actionable\<rparr>)"

text \<open>
  The three loops, each ending with the array built or with the exception thrown in it.
  A line comment and a general comment are pushed when the classifier finds the body
  actionable; a review is classified only under the test
  \<open>review.body && review.state !== 'COMMENTED'\<close>.
\<close>

fun processReviewComments ::
  "review_comment list \<Rightarrow> actionable_comment list \<Rightarrow> error + actionable_comment list" where
  "processReviewComments [] found = Inr found"
| "processReviewComments (comment # rest) found =
     (let actionable = isCommentActionable (rc_body comment)
      in if verdict.actionable actionable
         then (case reviewCommentEntry comment of
                 Inl err \<Rightarrow> Inl err
               | Inr entry \<Rightarrow> processReviewComments rest (found @ [entry]))
         else processReviewComments rest found)"

fun processGeneralComments ::
  "string \<Rightarrow> string \<Rightarrow> nat \<Rightarrow> general_comment list \<Rightarrow> actionable_comment list \<Rightarrow>
   error + actionable_comment list" where
  "processGeneralComments owner repo prNumber [] found = Inr found"
| "processGeneralComments owner repo prNumber (comment # rest) found =
     (let actionable = isCommentActionable (gc_body comment)
      in if verdict.actionable actionable
         then (case generalCommentEntry owner repo prNumber comment of
                 Inl err \<Rightarrow> Inl err
               | Inr entry \<Rightarrow> processGeneralComments owner repo prNumber rest (found @ [entry]))
         else processGeneralComments owner repo prNumber rest found)"

fun processReviews ::
  "review list \<Rightarrow> actionable_comment list \<Rightarrow> error + actionable_comment list" where
  "processReviews [] found = Inr found"
| "processReviews (review # rest) found =
     (if (rv_body review \<noteq> None \<and> rv_body review \<noteq> Some []) \<and> rv_state review \<noteq> ''COMMENTED''
      then
        (let actionable = isCommentActionable (rv_body review)
         in if verdict.actionable actionable
            then (case reviewEntry review of
                    Inl err \<Rightarrow> Inl err
                  | Inr entry \<Rightarrow> processReviews rest (found @ [entry]))
            else processReviews rest found)
      else processReviews rest found)"

text \<open>
  \<open>getActionableComments\<close>: the three calls and then the three loops, in the order of
  the source, all inside one \<open>try\<close> block. The first call that fails, or the first
  loop that throws, ends the block, and the \<open>catch\<close> returns the empty array.
\<close>

definition getActionableComments :: "github \<Rightarrow> string \<Rightarrow> string \<Rightarrow> nat \<Rightarrow> actionable_comment list" where
  "getActionableComments gh owner repo prNumber =
     (case executeGhCommand (gh_pulls_comments gh owner repo prNumber) of
        Inl err \<Rightarrow> []
      | Inr reviewComments \<Rightarrow>
          (case executeGhCommand (gh_pr_view_comments gh owner repo prNumber) of
             Inl err \<Rightarrow> []
           | Inr generalCommentsResult \<Rightarrow>
               let generalComments =
                     (case generalCommentsResult of None \<Rightarrow> [] | Some comments \<Rightarrow> comments)
               in (case executeGhCommand (gh_pulls_reviews gh owner repo prNumber) of
                     Inl err \<Rightarrow> []
                   | Inr reviews \<Rightarrow>
                       (case processReviewComments reviewComments [] of
                          Inl err \<Rightarrow> []
                        | Inr found1 \<Rightarrow>
                            (case processGeneralComments owner repo prNumber generalComments
                                    found1 of
                               Inl err \<Rightarrow> []
                             | Inr found2 \<Rightarrow>
                                 (case processReviews reviews found2 of
                                    Inl err \<Rightarrow> []
                                  | Inr found3 \<Rightarrow> found3))))))"

section \<open>The snapshot and the files\<close>

record severity_counts =
  high :: nat
  medium :: nat
  low :: nat

text \<open>\<open>{...pr, actionableComments, actionableCount, severityCounts}\<close>\<close>

record pr_summary =
  pr :: pull_request
  actionableComments :: "actionable_comment list"
  actionableCount :: nat
  severityCounts :: severity_counts

record repository_summary =
  owner :: string
  name :: string
  url :: string
  lastPush :: "timestamp option"
  pullRequests :: "pr_summary list"

record cache_snapshot =
  lastUpdate :: timestamp
  repositories :: "repository_summary list"

record update_metadata =
  md_lastUpdate :: timestamp
  repositoryCount :: nat
  totalPRs :: nat
  totalActionableComments :: nat

text \<open>
  The values the two files hold, and the text of a file: either the text
  \<open>JSON.stringify\<close> makes of a value, which \<open>JSON.parse\<close> reads back as that value, or
  a text that is not JSON.
\<close>

datatype json_value =
    JNull
  | JSnapshot cache_snapshot
  | JMetadata update_metadata
  | JOther string

datatype file_text = Json json_value | Malformed string

definition JSON_stringify :: "json_value \<Rightarrow> file_text" where
  "JSON_stringify v = Json v"

definition JSON_parse :: "file_text \<Rightarrow> error + json_value" where
  "JSON_parse t =
     (case t of
        Json v \<Rightarrow> Inr v
      | Malformed s \<Rightarrow> Inl (Error (''Unexpected token in JSON: '' @ s)))"

text \<open>
  A path holds no file, a file that cannot be read, or a file with its text. Writing to a
  path may fail, with the error \<open>writeError\<close> gives. \<open>fs.writeFileSync\<close> opens the
  file, which empties it, and then writes: a failure at the open (no permission) leaves
  the path as it was (\<open>failedWriteLeaves\<close> is \<open>None\<close>), and a failure after the open
  (a full disk) leaves the file with the text \<open>failedWriteLeaves\<close> gives, the new
  text cut short.
\<close>

datatype file_state = Missing | Unreadable error | Content file_text

record file_system =
  files :: "string \<Rightarrow> file_state"
  writeError :: "string \<Rightarrow> error option"
  failedWriteLeaves :: "string \<Rightarrow> file_text option"

text \<open>The two paths, written from the directory of the module.\<close>

definition prDataFile :: string where
  "prDataFile = ''data/pr-data.json''"

definition lastUpdateFile :: string where
  "lastUpdateFile = ''data/last-update.json''"

definition existsSync :: "file_system \<Rightarrow> string \<Rightarrow> bool" where
  "existsSync fs path = (files fs path \<noteq> Missing)"

definition readFileSync :: "file_system \<Rightarrow> string \<Rightarrow> error + file_text" where
  "readFileSync fs path =
     (case files fs path of
        Missing \<Rightarrow> Inl (Error (''ENOENT: no such file or directory, open '' @ path))
      | Unreadable err \<Rightarrow> Inl err
      | Content t \<Rightarrow> Inr t)"

text \<open>\<open>writeFileSync\<close> replaces the whole file, or throws.\<close>

definition writeFileSync :: "file_system \<Rightarrow> string \<Rightarrow> file_text \<Rightarrow> (error + unit) \<times> file_system" where
  "writeFileSync fs path t =
     (case writeError fs path of
        Some err \<Rightarrow>
          (Inl err,
           case failedWriteLeaves fs path of
             None \<Rightarrow> fs
           | Some remains \<Rightarrow> fs\<lparr>files := (files fs)(path := Content remains)\<rparr>)
      | None \<Rightarrow> (Inr (), fs\<lparr>files := (files fs)(path := Content t)\<rparr>))"

section \<open>fetchAllData\<close>

text \<open>
  The loop \<open>for (const pr of recentPrs)\<close>, with \<open>prSummaries\<close> the array
  \<open>repoData.pullRequests\<close> built so far.
\<close>

fun processPrs :: "github \<Rightarrow> string \<Rightarrow> string \<Rightarrow> pull_request list \<Rightarrow> pr_summary list \<Rightarrow> pr_summary list" where
  "processPrs gh ownerLogin repoName [] prSummaries = prSummaries"
| "processPrs gh ownerLogin repoName (p # rest) prSummaries =
     (let comments = getActionableComments gh ownerLogin repoName (pr_number p)
      in if length comments > 0
         then processPrs gh ownerLogin repoName rest
                (prSummaries @
                 [\<lparr>pr = p,
                   actionableComments = comments,
                   actionableCount = length comments,
                   severityCounts =
                     \<lparr>high = length (filter (\<lambda>c. ac_severity c = Some ''high'') comments),
                      medium = length (filter (\<lambda>c. ac_severity c = Some ''medium'') comments),
                      low = length (filter (\<lambda>c. ac_severity c = Some ''low'') comments)\<rparr>\<rparr>])
         else processPrs gh ownerLogin repoName rest prSummaries)"

text \<open>
  The loop \<open>for (const repo of repos)\<close>, with \<open>repoSummaries\<close> the array
  \<open>allData.repositories\<close> built so far. A failed \<open>gh pr list\<close> is caught, logged, and the loop goes on to the next repository.
\<close>

fun processRepos ::
  "github \<Rightarrow> clock \<Rightarrow> repo_data list \<Rightarrow> repository_summary list \<Rightarrow> repository_summary list" where
  "processRepos gh ck [] repoSummaries = repoSummaries"
| "processRepos gh ck (repo # rest) repoSummaries =
     (let thirtyDaysAgo = prsListedAt ck (repo_owner_login repo) (repo_name repo) - thirtyDays
      in case executeGhCommand (gh_pr_list gh (repo_owner_login repo) (repo_name repo)) of
           Inl err \<Rightarrow> processRepos gh ck rest repoSummaries
         | Inr prs \<Rightarrow>
             let recentPrs =
                   filter (\<lambda>p. case pr_createdAt p of
                                  None \<Rightarrow> False
                                | Some createdAt \<Rightarrow> createdAt \<ge> thirtyDaysAgo) prs;
                 repoData =
                   \<lparr>owner = repo_owner_login repo,
                    name = repo_name repo,
                    url = repo_url repo,
                    lastPush = repo_pushedAt repo,
                    pullRequests =
                      processPrs gh (repo_owner_login repo) (repo_name repo) recentPrs []\<rparr>
             in if length (pullRequests repoData) > 0
                then processRepos gh ck rest (repoSummaries @ [repoData])
                else processRepos gh ck rest repoSummaries)"

text \<open>The object written to the second file, computed from \<open>allData\<close> by the two reduces.\<close>

definition updateInfo :: "cache_snapshot \<Rightarrow> update_metadata" where
  "updateInfo allData =
     \<lparr>md_lastUpdate = lastUpdate allData,
      repositoryCount = length (repositories allData),
      totalPRs = foldl (\<lambda>sum repo. sum + length (pullRequests repo)) 0 (repositories allData),
      totalActionableComments =
        foldl (\<lambda>sum repo. sum + foldl (\<lambda>prSum p. prSum + actionableCount p) 0 (pullRequests repo))
          0 (repositories allData)\<rparr>"

text \<open>
  \<open>fetchAllData\<close> returns the snapshot or throws, and leaves the file system as its
  writes made it: the two \<open>writeFileSync\<close> calls run one after the other, outside every
  \<open>try\<close>, so the error of the first ends the function before the second.
\<close>

definition fetchAllData ::
  "github \<Rightarrow> clock \<Rightarrow> file_system \<Rightarrow> (error + cache_snapshot) \<times> file_system" where
  "fetchAllData gh ck fs =
     (let repos = getRepositoriesToMonitor gh ck;
          allData = \<lparr>lastUpdate = fetchStartedAt ck,
                     repositories = processRepos gh ck repos []\<rparr>
      in case writeFileSync fs prDataFile (JSON_stringify (JSnapshot allData)) of
           (Inl err, fs1) \<Rightarrow> (Inl err, fs1)
         | (Inr u, fs1) \<Rightarrow>
             (case writeFileSync fs1 lastUpdateFile
                     (JSON_stringify (JMetadata (updateInfo allData))) of
                (Inl err, fs2) \<Rightarrow> (Inl err, fs2)
              | (Inr u, fs2) \<Rightarrow> (Inr allData, fs2)))"

section \<open>loadCachedData and getLastUpdateInfo\<close>

text \<open>
  The body of the \<open>try\<close> block of both readers: \<open>Inr (Some v)\<close> is \<open>return v\<close>,
  \<open>Inr None\<close> is leaving the block without returning, \<open>Inl\<close> is a throw.
\<close>

definition readJsonIfExists :: "file_system \<Rightarrow> string \<Rightarrow> error + json_value option" where
  "readJsonIfExists fs path =
     (if existsSync fs path
      then (case readFileSync fs path of
              Inl err \<Rightarrow> Inl err
            | Inr t \<Rightarrow> (case JSON_parse t of Inl err \<Rightarrow> Inl err | Inr v \<Rightarrow> Inr (Some v)))
      else Inr None)"

text \<open>
  The result of a reader is \<open>Inl\<close> when an exception leaves it and \<open>Inr\<close> the value it
  returns; \<open>JNull\<close> is \<open>null\<close>. The \<open>catch\<close> logs and falls through to
  \<open>return null\<close>.
\<close>

definition loadCachedData :: "file_system \<Rightarrow> error + json_value" where
  "loadCachedData fs =
     (case readJsonIfExists fs prDataFile of
        Inl err \<Rightarrow> Inr JNull
      | Inr (Some v) \<Rightarrow> Inr v
      | Inr None \<Rightarrow> Inr JNull)"

definition getLastUpdateInfo :: "file_system \<Rightarrow> error + json_value" where
  "getLastUpdateInfo fs =
     (case readJsonIfExists fs lastUpdateFile of
        Inl err \<Rightarrow> Inr JNull
      | Inr (Some v) \<Rightarrow> Inr v
      | Inr None \<Rightarrow> Inr JNull)"

section \<open>Example inputs\<close>

text \<open>
  One repository of the configured list that answers and one that does not, with one
  recent pull request that carries two line comments, one general comment and two
  reviews.
\<close>

definition ex_repo :: repo_data where
  "ex_repo =
     \<lparr>repo_name = ''MRToolGH'',
      repo_owner_login = ''ppaul-h-aot'',
      repo_url = ''https://github.com/ppaul-h-aot/MRToolGH'',
      repo_updatedAt = Some 1699913600000,
      repo_pushedAt = Some 1699913600000\<rparr>"

definition ex_pr :: pull_request where
  "ex_pr =
     \<lparr>pr_number = 7,
      pr_title = ''Add scheduler'',
      pr_author_login = ''ppaul'',
      pr_createdAt = Some 1699827200000,
      pr_updatedAt = Some 1699913600000,
      pr_url = ''https://github.com/ppaul-h-aot/MRToolGH/pull/7'',
      pr_reviewDecision = ''CHANGES_REQUESTED'',
      pr_isDraft = False\<rparr>"

definition ex_line_comment_bug :: review_comment where
  "ex_line_comment_bug =
     \<lparr>rc_id = ''101'', rc_user_login = Some ''alice'', rc_body = Some ''Please fix this bug'',
      rc_created_at = ''2023-11-13T10:00:00Z'', rc_path = ''data-fetcher.js'',
      rc_line = Some 42, rc_html_url = ''https://github.com/ppaul-h-aot/MRToolGH/pull/7#r101''\<rparr>"

definition ex_line_comment_lgtm :: review_comment where
  "ex_line_comment_lgtm =
     \<lparr>rc_id = ''102'', rc_user_login = Some ''bob'', rc_body = Some ''lgtm'',
      rc_created_at = ''2023-11-13T10:05:00Z'', rc_path = ''data-fetcher.js'',
      rc_line = None, rc_html_url = ''https://github.com/ppaul-h-aot/MRToolGH/pull/7#r102''\<rparr>"

definition ex_general_comment :: general_comment where
  "ex_general_comment =
     \<lparr>gc_id = ''IC_201'', gc_author_login = Some ''carol'',
      gc_body = Some ''Could you add a test for this?'',
      gc_createdAt = ''2023-11-13T11:00:00Z''\<rparr>"

definition ex_review_changes :: review where
  "ex_review_changes =
     \<lparr>rv_id = ''301'', rv_user_login = Some ''dave'', rv_body = Some ''Consider a shorter name'',
      rv_state = ''CHANGES_REQUESTED'', rv_submitted_at = ''2023-11-13T12:00:00Z'',
      rv_html_url = ''https://github.com/ppaul-h-aot/MRToolGH/pull/7#pullrequestreview-301''\<rparr>"

definition ex_review_commented :: review where
  "ex_review_commented =
     \<lparr>rv_id = ''302'', rv_user_login = Some ''erin'', rv_body = Some ''This is broken'',
      rv_state = ''COMMENTED'', rv_submitted_at = ''2023-11-13T12:30:00Z'',
      rv_html_url = ''https://github.com/ppaul-h-aot/MRToolGH/pull/7#pullrequestreview-302''\<rparr>"

definition ex_github :: github where
  "ex_github =
     \<lparr>gh_repo_view =
        (\<lambda>repoName. if repoName = ''ppaul-h-aot/MRToolGH'' then Inr ex_repo
                     else Inl ''Could not resolve to a Repository''),
      gh_pr_list =
        (\<lambda>ownerLogin repoName.
           if ownerLogin = ''ppaul-h-aot'' \<and> repoName = ''MRToolGH'' then Inr [ex_pr]
           else Inl ''Could not resolve to a Repository''),
      gh_pulls_comments = (\<lambda>ownerLogin repoName n. Inr [ex_line_comment_bug, ex_line_comment_lgtm]),
      gh_pr_view_comments = (\<lambda>ownerLogin repoName n. Inr (Some [ex_general_comment])),
      gh_pulls_reviews = (\<lambda>ownerLogin repoName n. Inr [ex_review_changes, ex_review_commented])\<rparr>"

text \<open>The same program when \<open>gh pr list\<close> fails.\<close>

definition ex_github_no_pr_list :: github where
  "ex_github_no_pr_list =
     ex_github\<lparr>gh_pr_list := (\<lambda>ownerLogin repoName. Inl ''HTTP 502: Bad Gateway'')\<rparr>"

text \<open>
  The same program when the pull request has one more review, by an account that no
  longer exists: the reply carries no author object for it.
\<close>

definition ex_review_ghost :: review where
  "ex_review_ghost =
     \<lparr>rv_id = ''303'', rv_user_login = None, rv_body = Some ''Please fix the broken build'',
      rv_state = ''CHANGES_REQUESTED'', rv_submitted_at = ''2023-11-13T13:00:00Z'',
      rv_html_url = ''https://github.com/ppaul-h-aot/MRToolGH/pull/7#pullrequestreview-303''\<rparr>"

definition ex_github_ghost :: github where
  "ex_github_ghost =
     ex_github\<lparr>gh_pulls_reviews :=
       (\<lambda>ownerLogin repoName n. Inr [ex_review_changes, ex_review_ghost])\<rparr>"

text \<open>
  Two clocks: on the first the repository was pushed to one day before it is checked, on
  the second 31 days before.
\<close>

definition ex_clock :: clock where
  "ex_clock =
     \<lparr>repoCheckedAt = (\<lambda>repoName. 1700000000000),
      fetchStartedAt = 1700000001000,
      prsListedAt = (\<lambda>ownerLogin repoName. 1700000002000)\<rparr>"

definition ex_clock_late :: clock where
  "ex_clock_late =
     \<lparr>repoCheckedAt = (\<lambda>repoName. 1702592000000),
      fetchStartedAt = 1702592001000,
      prsListedAt = (\<lambda>ownerLogin repoName. 1702592002000)\<rparr>"

text \<open>
  Four file systems: an empty one that takes every write; one that refuses every write;
  one that holds the metadata of an earlier refresh and refuses to replace it; one whose
  files were cut short.
\<close>

definition ex_old_metadata :: update_metadata where
  "ex_old_metadata =
     \<lparr>md_lastUpdate = 1690000000000, repositoryCount = 0, totalPRs = 0,
      totalActionableComments = 0\<rparr>"

definition ex_fs :: file_system where
  "ex_fs =
     \<lparr>files = (\<lambda>path. Missing), writeError = (\<lambda>path. None),
      failedWriteLeaves = (\<lambda>path. None)\<rparr>"

definition ex_fs_denied :: file_system where
  "ex_fs_denied =
     \<lparr>files = (\<lambda>path. Missing),
      writeError = (\<lambda>path. Some (Error ''EACCES: permission denied'')),
      failedWriteLeaves = (\<lambda>path. None)\<rparr>"

definition ex_fs_stale :: file_system where
  "ex_fs_stale =
     \<lparr>files = (\<lambda>path. if path = lastUpdateFile
                        then Content (JSON_stringify (JMetadata ex_old_metadata)) else Missing),
      writeError = (\<lambda>path. if path = lastUpdateFile
                             then Some (Error ''EACCES: permission denied'') else None),
      failedWriteLeaves = (\<lambda>path. None)\<rparr>"

definition ex_fs_corrupt :: file_system where
  "ex_fs_corrupt =
     \<lparr>files = (\<lambda>path. Content (Malformed ''{ lastUpdate: '')),
      writeError = (\<lambda>path. None),
      failedWriteLeaves = (\<lambda>path. None)\<rparr>"

text \<open>The snapshot the example yields on the first clock.\<close>

definition ex_entry_bug :: actionable_comment where
  "ex_entry_bug =
     \<lparr>ac_id = ''101'', ac_type = ''review_comment'', ac_author = ''alice'',
      ac_body = Some ''Please fix this bug'', ac_createdAt = ''2023-11-13T10:00:00Z'',
      ac_path = Some ''data-fetcher.js'', ac_line = Some 42, ac_state = None,
      ac_url = ''https://github.com/ppaul-h-aot/MRToolGH/pull/7#r101'',
      ac_actionType = Some ''fix_required'', ac_severity = Some ''high''\<rparr>"

definition ex_entry_test :: actionable_comment where
  "ex_entry_test =
     \<lparr>ac_id = ''IC_201'', ac_type = ''general_comment'', ac_author = ''carol'',
      ac_body = Some ''Could you add a test for this?'',
      ac_createdAt = ''2023-11-13T11:00:00Z'',
      ac_path = None, ac_line = None, ac_state = None,
      ac_url = ''https://github.com/ppaul-h-aot/MRToolGH/pull/7#issuecomment-IC_201'',
      ac_actionType = Some ''improvement_needed'', ac_severity = Some ''medium''\<rparr>"

definition ex_entry_name :: actionable_comment where
  "ex_entry_name =
     \<lparr>ac_id = ''301'', ac_type = ''review'', ac_author = ''dave'',
      ac_body = Some ''Consider a shorter name'', ac_createdAt = ''2023-11-13T12:00:00Z'',
      ac_path = None, ac_line = None, ac_state = Some ''CHANGES_REQUESTED'',
      ac_url = ''https://github.com/ppaul-h-aot/MRToolGH/pull/7#pullrequestreview-301'',
      ac_actionType = Some ''suggestion'', ac_severity = Some ''low''\<rparr>"

definition ex_snapshot :: cache_snapshot where
  "ex_snapshot =
     \<lparr>lastUpdate = 1700000001000,
      repositories =
        [\<lparr>owner = ''ppaul-h-aot'',
          name = ''MRToolGH'',
          url = ''https://github.com/ppaul-h-aot/MRToolGH'',
          lastPush = Some 1699913600000,
          pullRequests =
            [\<lparr>pr = ex_pr,
              actionableComments = [ex_entry_bug, ex_entry_test, ex_entry_name],
              actionableCount = 3,
              severityCounts = \<lparr>high = 1, medium = 1, low = 1\<rparr>\<rparr>]\<rparr>]\<rparr>"

section \<open>Properties of the classifier\<close>

lemma firstMatch_iff: "firstMatch ps body = (\<exists>p\<in>set ps. test p body)"
  by (induction ps) auto

lemma high_Nil: "\<not> firstMatch highSeverityPatterns []"
  by (simp add: highSeverityPatterns_def isWordBoundary_def)

text \<open>The two characters outside ASCII that \<open>toLowerCase\<close> turns into ASCII letters.\<close>

lemma toLowerCase_outside_ascii:
  "toLowerCase [CHR ''B'', CHR ''R'', CHR ''O'', CHR 0xE2, CHR 0x84, CHR 0xAA, CHR ''E'', CHR ''N''] =
     ''broken''"
  "toLowerCase [CHR 0xC4, CHR 0xB0, CHR ''S''] = [CHR ''i'', CHR 0xCC, CHR 0x87, CHR ''s'']"
  by code_simp+

lemma ex_group_matches:
  "firstMatch highSeverityPatterns (toLowerCase ''This is BROKEN, why?'')"
  "\<not> firstMatch highSeverityPatterns (toLowerCase ''Could you add a test for this?'')"
  "firstMatch mediumSeverityPatterns (toLowerCase ''Could you add a test for this?'')"
  "\<not> firstMatch (highSeverityPatterns @ mediumSeverityPatterns)
       (toLowerCase ''Consider a shorter name'')"
  "firstMatch lowSeverityPatterns (toLowerCase ''Consider a shorter name'')"
  "\<not> firstMatch (highSeverityPatterns @ mediumSeverityPatterns @ lowSeverityPatterns)
       (toLowerCase ''What does this do?'')"
  "firstMatch questionPatterns (toLowerCase ''What does this do?'')"
  "\<not> firstMatch (highSeverityPatterns @ mediumSeverityPatterns @ lowSeverityPatterns @
         questionPatterns) (toLowerCase ''Please add logging'')"
  "firstMatch requestPatterns (toLowerCase ''Please add logging'')"
  by code_simp+

text \<open>
  Claim C1. The five groups are tried on the lower-cased body in the order high, medium,
  low, question, request, and the first group with a matching pattern decides: a body
  that matches a high-severity pattern is \<open>fix_required\<close>/\<open>high\<close> whatever else it
  matches; a non-empty body is classified by a later group exactly when no earlier group
  matches. "Could you add a test for this?" is \<open>improvement_needed\<close>/\<open>medium\<close> and
  "What does this do?" is \<open>question\<close>/\<open>medium\<close>.
\<close>

theorem classify_priority_order:
  "((\<exists>p\<in>set highSeverityPatterns. test p (toLowerCase cb)) \<longrightarrow>
      isCommentActionable (Some cb) =
        \<lparr>actionable = True, vtype = Some ''fix_required'', severity = Some ''high''\<rparr>) \<and>
   (cb \<noteq> [] \<and> \<not> (\<exists>p\<in>set highSeverityPatterns. test p (toLowerCase cb)) \<and>
    (\<exists>p\<in>set mediumSeverityPatterns. test p (toLowerCase cb)) \<longrightarrow>
      isCommentActionable (Some cb) =
        \<lparr>actionable = True, vtype = Some ''improvement_needed'', severity = Some ''medium''\<rparr>) \<and>
   (cb \<noteq> [] \<and>
    \<not> (\<exists>p\<in>set (highSeverityPatterns @ mediumSeverityPatterns). test p (toLowerCase cb)) \<and>
    (\<exists>p\<in>set lowSeverityPatterns. test p (toLowerCase cb)) \<longrightarrow>
      isCommentActionable (Some cb) =
        \<lparr>actionable = True, vtype = Some ''suggestion'', severity = Some ''low''\<rparr>) \<and>
   (cb \<noteq> [] \<and>
    \<not> (\<exists>p\<in>set (highSeverityPatterns @ mediumSeverityPatterns @ lowSeverityPatterns).
          test p (toLowerCase cb)) \<and>
    (\<exists>p\<in>set questionPatterns. test p (toLowerCase cb)) \<longrightarrow>
      isCommentActionable (Some cb) =
        \<lparr>actionable = True, vtype = Some ''question'', severity = Some ''medium''\<rparr>) \<and>
   (cb \<noteq> [] \<and>
    \<not> (\<exists>p\<in>set (highSeverityPatterns @ mediumSeverityPatterns @ lowSeverityPatterns @
                  questionPatterns). test p (toLowerCase cb)) \<and>
    (\<exists>p\<in>set requestPatterns. test p (toLowerCase cb)) \<longrightarrow>
      isCommentActionable (Some cb) =
        \<lparr>actionable = True, vtype = Some ''request'', severity = Some ''medium''\<rparr>) \<and>
   isCommentActionable (Some ''Could you add a test for this?'') =
     \<lparr>actionable = True, vtype = Some ''improvement_needed'', severity = Some ''medium''\<rparr> \<and>
   isCommentActionable (Some ''What does this do?'') =
     \<lparr>actionable = True, vtype = Some ''question'', severity = Some ''medium''\<rparr>"
proof -
  have nonempty: "cb \<noteq> []" if "\<exists>p\<in>set highSeverityPatterns. test p (toLowerCase cb)"
    using that high_Nil by (cases cb) (auto simp: firstMatch_iff)
  have e1: "isCommentActionable (Some ''Could you add a test for this?'') =
     \<lparr>actionable = True, vtype = Some ''improvement_needed'', severity = Some ''medium''\<rparr>"
    by code_simp
  have e2: "isCommentActionable (Some ''What does this do?'') =
     \<lparr>actionable = True, vtype = Some ''question'', severity = Some ''medium''\<rparr>"
    by code_simp
  show ?thesis
    using nonempty e1 e2
    by (simp only: isCommentActionable_def firstMatch_iff Let_def set_append
        option.case) auto
qed

text \<open>
  One body for each group: the first has a high-severity word, a question mark and a
  question word at once; each of the others matches its group and no earlier one.
\<close>

theorem classify_priority_order_witness:
  "(\<exists>p\<in>set highSeverityPatterns. test p (toLowerCase ''This is BROKEN, why?'')) \<and>
   isCommentActionable (Some ''This is BROKEN, why?'') =
     \<lparr>actionable = True, vtype = Some ''fix_required'', severity = Some ''high''\<rparr> \<and>
   isCommentActionable (Some ''Could you add a test for this?'') =
     \<lparr>actionable = True, vtype = Some ''improvement_needed'', severity = Some ''medium''\<rparr> \<and>
   isCommentActionable (Some ''Consider a shorter name'') =
     \<lparr>actionable = True, vtype = Some ''suggestion'', severity = Some ''low''\<rparr> \<and>
   isCommentActionable (Some ''What does this do?'') =
     \<lparr>actionable = True, vtype = Some ''question'', severity = Some ''medium''\<rparr> \<and>
   isCommentActionable (Some ''Please add logging'') =
     \<lparr>actionable = True, vtype = Some ''request'', severity = Some ''medium''\<rparr>"
proof -
  note m = ex_group_matches [unfolded firstMatch_iff]
  have ne: "''Could you add a test for this?'' \<noteq> []" "''Consider a shorter name'' \<noteq> []"
    "''What does this do?'' \<noteq> []" "''Please add logging'' \<noteq> []"
    by simp_all
  from classify_priority_order [of "''This is BROKEN, why?''"] m(1)
  have h: "isCommentActionable (Some ''This is BROKEN, why?'') =
     \<lparr>actionable = True, vtype = Some ''fix_required'', severity = Some ''high''\<rparr>"
    by blast
  from classify_priority_order [of "''Could you add a test for this?''"] m(2,3) ne(1)
  have md: "isCommentActionable (Some ''Could you add a test for this?'') =
     \<lparr>actionable = True, vtype = Some ''improvement_needed'', severity = Some ''medium''\<rparr>"
    by blast
  from classify_priority_order [of "''Consider a shorter name''"] m(4,5) ne(2)
  have lw: "isCommentActionable (Some ''Consider a shorter name'') =
     \<lparr>actionable = True, vtype = Some ''suggestion'', severity = Some ''low''\<rparr>"
    by blast
  from classify_priority_order [of "''What does this do?''"] m(6,7) ne(3)
  have qu: "isCommentActionable (Some ''What does this do?'') =
     \<lparr>actionable = True, vtype = Some ''question'', severity = Some ''medium''\<rparr>"
    by blast
  from classify_priority_order [of "''Please add logging''"] m(8,9) ne(4)
  have rq: "isCommentActionable (Some ''Please add logging'') =
     \<lparr>actionable = True, vtype = Some ''request'', severity = Some ''medium''\<rparr>"
    by blast
  from m(1) h md lw qu rq show ?thesis by blast
qed

text \<open>
  Claim C8. \<open>isCommentActionable(null)\<close> and \<open>isCommentActionable("")\<close> both return
  \<open>{actionable: false}\<close>, with neither a type nor a severity.
\<close>

theorem classify_absent_or_empty:
  "isCommentActionable None = \<lparr>actionable = False, vtype = None, severity = None\<rparr> \<and>
   isCommentActionable (Some []) = \<lparr>actionable = False, vtype = None, severity = None\<rparr>"
  by (simp add: isCommentActionable_def notActionable_def)

text \<open>
  Claim C10. The classifier of github-server.js and the classifier of data-fetcher.js
  return the same verdict on every body, \<open>null\<close> and the empty string included.
\<close>

theorem classifiers_agree:
  "server_isCommentActionable commentBody = isCommentActionable commentBody"
proof -
  have tables:
    "server_highSeverityPatterns = highSeverityPatterns"
    "server_mediumSeverityPatterns = mediumSeverityPatterns"
    "server_lowSeverityPatterns = lowSeverityPatterns"
    "server_questionPatterns = questionPatterns"
    "server_requestPatterns = requestPatterns"
    by (simp_all only: server_highSeverityPatterns_def highSeverityPatterns_def
        server_mediumSeverityPatterns_def mediumSeverityPatterns_def
        server_lowSeverityPatterns_def lowSeverityPatterns_def
        server_questionPatterns_def questionPatterns_def
        server_requestPatterns_def requestPatterns_def)
  show ?thesis
    by (simp only: server_isCommentActionable_def isCommentActionable_def tables)
qed

section \<open>Properties of the scheduler\<close>

text \<open>
  Claim C9, as stated, fails: the scheduler also starts a refresh when the process
  starts inside the office hours, whatever the hour and the minute. Started on a Monday
  at 10:17 it fetches at once, at a time that is no third hour and no first minute.
\<close>

theorem refresh_at_process_start:
  "initialFetch \<lparr>getDay = 1, getHours = 10, getMinutes = 17\<rparr> \<and>
   \<not> (getDay \<lparr>getDay = 1, getHours = 10, getMinutes = 17\<rparr> \<in> {1, 2, 3, 4, 5} \<and>
      9 \<le> getHours \<lparr>getDay = 1, getHours = 10, getMinutes = 17\<rparr> \<and>
      getHours \<lparr>getDay = 1, getHours = 10, getMinutes = 17\<rparr> < 18 \<and>
      getHours \<lparr>getDay = 1, getHours = 10, getMinutes = 17\<rparr> mod 3 = 0 \<and>
      getMinutes \<lparr>getDay = 1, getHours = 10, getMinutes = 17\<rparr> = 0)"
  by (simp add: initialFetch_def isOfficeHours_def officeHours_def)

text \<open>
  Claim C9, amended. A run of the once-a-minute check at local time \<open>t\<close> starts a
  refresh exactly when \<open>t\<close> is on Monday to Friday with \<open>9 \<le> hour < 18\<close>, the hour is
  a multiple of three and the minute is zero. The start of the process at local time
  \<open>t\<close> starts a refresh exactly when \<open>t\<close> is on Monday to Friday with
  \<open>9 \<le> hour < 18\<close>. Outside the office hours neither of the two starts one.
\<close>

theorem scheduled_refresh_gate:
  "intervalCallback t t =
     (getDay t \<in> {1, 2, 3, 4, 5} \<and> 9 \<le> getHours t \<and> getHours t < 18 \<and>
      getHours t mod 3 = 0 \<and> getMinutes t = 0) \<and>
   initialFetch t = (getDay t \<in> {1, 2, 3, 4, 5} \<and> 9 \<le> getHours t \<and> getHours t < 18) \<and>
   (\<not> isOfficeHours officeNow \<longrightarrow>
      \<not> intervalCallback now officeNow \<and> \<not> initialFetch officeNow) \<and>
   isOfficeHours t = (getDay t \<in> {1, 2, 3, 4, 5} \<and> 9 \<le> getHours t \<and> getHours t < 18)"
  by (auto simp: intervalCallback_def isOfficeHours_def officeHours_def initialFetch_def Let_def)

text \<open>
  Monday at 12:00 the check fires; Saturday at 12:00 neither the check nor a start of
  the process does.
\<close>

theorem scheduled_refresh_gate_witness:
  "intervalCallback \<lparr>getDay = 1, getHours = 12, getMinutes = 0\<rparr>
     \<lparr>getDay = 1, getHours = 12, getMinutes = 0\<rparr> \<and>
   initialFetch \<lparr>getDay = 1, getHours = 12, getMinutes = 0\<rparr> \<and>
   \<not> isOfficeHours \<lparr>getDay = 6, getHours = 12, getMinutes = 0\<rparr> \<and>
   \<not> intervalCallback \<lparr>getDay = 6, getHours = 12, getMinutes = 0\<rparr>
     \<lparr>getDay = 6, getHours = 12, getMinutes = 0\<rparr> \<and>
   \<not> initialFetch \<lparr>getDay = 6, getHours = 12, getMinutes = 0\<rparr>"
proof -
  have sat: "\<not> isOfficeHours \<lparr>getDay = 6, getHours = 12, getMinutes = 0\<rparr>"
    by (simp add: isOfficeHours_def officeHours_def)
  from scheduled_refresh_gate
    [of "\<lparr>getDay = 1, getHours = 12, getMinutes = 0\<rparr>"
        "\<lparr>getDay = 6, getHours = 12, getMinutes = 0\<rparr>"
        "\<lparr>getDay = 6, getHours = 12, getMinutes = 0\<rparr>"]
    sat
  show ?thesis by simp
qed

section \<open>Properties of getActionableComments\<close>

text \<open>
  A loop that ends without an exception has appended the entries of the elements that
  pass its test, in order; it throws exactly when one of them has no author.
\<close>

lemma entry_Inl:
  "(\<exists>e. reviewCommentEntry c = Inl e) = (rc_user_login c = None)"
  "(\<exists>e. generalCommentEntry ow rp n g = Inl e) = (gc_author_login g = None)"
  "(\<exists>e. reviewEntry rv = Inl e) = (rv_user_login rv = None)"
  by (simp_all add: reviewCommentEntry_def generalCommentEntry_def reviewEntry_def Let_def
      split: option.splits)

lemma entry_Inr:
  "reviewCommentEntry c = Inr a \<Longrightarrow>
     ac_type a = ''review_comment'' \<and> ac_severity a = severity (isCommentActionable (rc_body c))"
  "generalCommentEntry ow rp n g = Inr a \<Longrightarrow>
     ac_type a = ''general_comment'' \<and> ac_severity a = severity (isCommentActionable (gc_body g))"
  "reviewEntry rv = Inr a \<Longrightarrow>
     ac_type a = ''review'' \<and> ac_state a = Some (rv_state rv) \<and>
     ac_severity a = severity (isCommentActionable (rv_body rv))"
  by (auto simp: reviewCommentEntry_def generalCommentEntry_def reviewEntry_def Let_def
      split: option.splits)

lemma processReviewComments_Inr:
  "processReviewComments cs found = Inr r \<Longrightarrow>
   map Inr r = map Inr found @ map reviewCommentEntry
       (filter (\<lambda>c. actionable (isCommentActionable (rc_body c))) cs)"
  by (induction cs arbitrary: found) (auto simp: Let_def split: sum.splits if_splits)

lemma processGeneralComments_Inr:
  "processGeneralComments ow rp n cs found = Inr r \<Longrightarrow>
   map Inr r = map Inr found @ map (generalCommentEntry ow rp n)
       (filter (\<lambda>c. actionable (isCommentActionable (gc_body c))) cs)"
  by (induction cs arbitrary: found) (auto simp: Let_def split: sum.splits if_splits)

lemma processReviews_Inr:
  "processReviews rs found = Inr r \<Longrightarrow>
   map Inr r = map Inr found @ map reviewEntry
       (filter (\<lambda>rv. (rv_body rv \<noteq> None \<and> rv_body rv \<noteq> Some []) \<and>
                      rv_state rv \<noteq> ''COMMENTED'' \<and>
                      actionable (isCommentActionable (rv_body rv))) rs)"
  by (induction rs arbitrary: found) (auto simp: Let_def split: sum.splits if_splits)

lemma processReviewComments_returns:
  "(\<exists>r. processReviewComments cs found = Inr r) =
   (\<forall>c\<in>set cs. actionable (isCommentActionable (rc_body c)) \<longrightarrow> rc_user_login c \<noteq> None)"
proof (induction cs arbitrary: found)
  case Nil
  show ?case by simp
next
  case (Cons c cs)
  show ?case
  proof (cases "actionable (isCommentActionable (rc_body c))")
    case False
    then show ?thesis using Cons.IH [of found] by (simp add: Let_def)
  next
    case True
    show ?thesis
    proof (cases "reviewCommentEntry c")
      case (Inl e)
      with entry_Inl(1) [of c] have "rc_user_login c = None" by blast
      with True Inl show ?thesis by (simp add: Let_def)
    next
      case (Inr a)
      with entry_Inl(1) [of c] have "rc_user_login c \<noteq> None" by auto
      with True Inr Cons.IH [of "found @ [a]"] show ?thesis by (simp add: Let_def)
    qed
  qed
qed

lemma processGeneralComments_returns:
  "(\<exists>r. processGeneralComments ow rp n cs found = Inr r) =
   (\<forall>c\<in>set cs. actionable (isCommentActionable (gc_body c)) \<longrightarrow> gc_author_login c \<noteq> None)"
proof (induction cs arbitrary: found)
  case Nil
  show ?case by simp
next
  case (Cons c cs)
  show ?case
  proof (cases "actionable (isCommentActionable (gc_body c))")
    case False
    then show ?thesis using Cons.IH [of found] by (simp add: Let_def)
  next
    case True
    show ?thesis
    proof (cases "generalCommentEntry ow rp n c")
      case (Inl e)
      with entry_Inl(2) [of ow rp n c] have "gc_author_login c = None" by blast
      with True Inl show ?thesis by (simp add: Let_def)
    next
      case (Inr a)
      with entry_Inl(2) [of ow rp n c] have "gc_author_login c \<noteq> None" by auto
      with True Inr Cons.IH [of "found @ [a]"] show ?thesis by (simp add: Let_def)
    qed
  qed
qed

lemma processReviews_returns:
  "(\<exists>r. processReviews rs found = Inr r) =
   (\<forall>rv\<in>set rs. (rv_body rv \<noteq> None \<and> rv_body rv \<noteq> Some []) \<and>
                  rv_state rv \<noteq> ''COMMENTED'' \<and>
                  actionable (isCommentActionable (rv_body rv)) \<longrightarrow> rv_user_login rv \<noteq> None)"
proof (induction rs arbitrary: found)
  case Nil
  show ?case by simp
next
  case (Cons rv rs)
  show ?case
  proof (cases "(rv_body rv \<noteq> None \<and> rv_body rv \<noteq> Some []) \<and> rv_state rv \<noteq> ''COMMENTED'' \<and>
                actionable (isCommentActionable (rv_body rv))")
    case False
    then show ?thesis using Cons.IH [of found] by (auto simp: Let_def)
  next
    case True
    show ?thesis
    proof (cases "reviewEntry rv")
      case (Inl e)
      with entry_Inl(3) [of rv] have "rv_user_login rv = None" by blast
      with True Inl show ?thesis by (simp add: Let_def)
    next
      case (Inr a)
      with entry_Inl(3) [of rv] have "rv_user_login rv \<noteq> None" by auto
      with True Inr Cons.IH [of "found @ [a]"] show ?thesis by (simp add: Let_def)
    qed
  qed
qed

text \<open>
  The result of \<open>getActionableComments\<close> when the three lists were fetched: the three
  runs of entries, or nothing when a loop throws.
\<close>

lemma getActionableComments_fetched:
  assumes "gh_pulls_comments gh ow rp n = Inr reviewComments"
    and "gh_pr_view_comments gh ow rp n = Inr generalCommentsResult"
    and "gh_pulls_reviews gh ow rp n = Inr reviews"
  shows "getActionableComments gh ow rp n = [] \<or>
     map Inr (getActionableComments gh ow rp n) =
       map reviewCommentEntry
         (filter (\<lambda>c. actionable (isCommentActionable (rc_body c))) reviewComments) @
       map (generalCommentEntry ow rp n)
         (filter (\<lambda>c. actionable (isCommentActionable (gc_body c)))
            (case generalCommentsResult of None \<Rightarrow> [] | Some comments \<Rightarrow> comments)) @
       map reviewEntry
         (filter (\<lambda>rv. (rv_body rv \<noteq> None \<and> rv_body rv \<noteq> Some []) \<and>
                        rv_state rv \<noteq> ''COMMENTED'' \<and>
                        actionable (isCommentActionable (rv_body rv))) reviews)"
  using assms
  by (auto simp: getActionableComments_def executeGhCommand_def Let_def
      dest!: processReviewComments_Inr processGeneralComments_Inr processReviews_Inr
      split: sum.splits)

lemma getActionableComments_with_authors:
  assumes "gh_pulls_comments gh ow rp n = Inr reviewComments"
    and "gh_pr_view_comments gh ow rp n = Inr generalCommentsResult"
    and "gh_pulls_reviews gh ow rp n = Inr reviews"
    and "\<forall>c\<in>set reviewComments.
           actionable (isCommentActionable (rc_body c)) \<longrightarrow> rc_user_login c \<noteq> None"
    and "\<forall>c\<in>set (case generalCommentsResult of None \<Rightarrow> [] | Some comments \<Rightarrow> comments).
           actionable (isCommentActionable (gc_body c)) \<longrightarrow> gc_author_login c \<noteq> None"
    and "\<forall>rv\<in>set reviews.
           (rv_body rv \<noteq> None \<and> rv_body rv \<noteq> Some []) \<and> rv_state rv \<noteq> ''COMMENTED'' \<and>
           actionable (isCommentActionable (rv_body rv)) \<longrightarrow> rv_user_login rv \<noteq> None"
  shows "map Inr (getActionableComments gh ow rp n) =
       map reviewCommentEntry
         (filter (\<lambda>c. actionable (isCommentActionable (rc_body c))) reviewComments) @
       map (generalCommentEntry ow rp n)
         (filter (\<lambda>c. actionable (isCommentActionable (gc_body c)))
            (case generalCommentsResult of None \<Rightarrow> [] | Some comments \<Rightarrow> comments)) @
       map reviewEntry
         (filter (\<lambda>rv. (rv_body rv \<noteq> None \<and> rv_body rv \<noteq> Some []) \<and>
                        rv_state rv \<noteq> ''COMMENTED'' \<and>
                        actionable (isCommentActionable (rv_body rv))) reviews)"
proof -
  let ?gcs = "case generalCommentsResult of None \<Rightarrow> [] | Some comments \<Rightarrow> comments"
  from assms(4) obtain f1 where f1: "processReviewComments reviewComments [] = Inr f1"
    using processReviewComments_returns [of reviewComments "[]"] by blast
  from assms(5) obtain f2 where f2: "processGeneralComments ow rp n ?gcs f1 = Inr f2"
    using processGeneralComments_returns [of ow rp n ?gcs f1] by blast
  from assms(6) obtain f3 where f3: "processReviews reviews f2 = Inr f3"
    using processReviews_returns [of reviews f2] by blast
  have res: "getActionableComments gh ow rp n = f3"
    using assms(1-3) f1 f2 f3
    by (simp add: getActionableComments_def executeGhCommand_def Let_def)
  show ?thesis
    unfolding res
    using processReviewComments_Inr [OF f1] processGeneralComments_Inr [OF f2]
      processReviews_Inr [OF f3]
    by simp
qed

text \<open>Whatever was fetched, an entry of the result is the entry of an actionable element.\<close>

lemma getActionableComments_member:
  assumes "a \<in> set (getActionableComments gh ow rp n)"
  shows "(\<exists>c. reviewCommentEntry c = Inr a \<and> actionable (isCommentActionable (rc_body c))) \<or>
         (\<exists>g. generalCommentEntry ow rp n g = Inr a \<and> actionable (isCommentActionable (gc_body g))) \<or>
         (\<exists>rv. reviewEntry rv = Inr a \<and> actionable (isCommentActionable (rv_body rv)))"
proof -
  from assms obtain rcs gcr rvs where
    f: "gh_pulls_comments gh ow rp n = Inr rcs" "gh_pr_view_comments gh ow rp n = Inr gcr"
       "gh_pulls_reviews gh ow rp n = Inr rvs"
    by (auto simp: getActionableComments_def executeGhCommand_def split: sum.splits)
  let ?A = "map reviewCommentEntry
      (filter (\<lambda>c. actionable (isCommentActionable (rc_body c))) rcs)"
  let ?B = "map (generalCommentEntry ow rp n)
      (filter (\<lambda>c. actionable (isCommentActionable (gc_body c)))
         (case gcr of None \<Rightarrow> [] | Some comments \<Rightarrow> comments))"
  let ?C = "map reviewEntry
      (filter (\<lambda>rv. (rv_body rv \<noteq> None \<and> rv_body rv \<noteq> Some []) \<and>
                     rv_state rv \<noteq> ''COMMENTED'' \<and>
                     actionable (isCommentActionable (rv_body rv))) rvs)"
  from assms have ne: "getActionableComments gh ow rp n \<noteq> []" by auto
  with getActionableComments_fetched [OF f]
  have eq: "map Inr (getActionableComments gh ow rp n) = ?A @ ?B @ ?C"
    by blast
  from assms have "Inr a \<in> set (map Inr (getActionableComments gh ow rp n) ::
      (error + actionable_comment) list)"
    by simp
  then have "Inr a \<in> set ?A \<or> Inr a \<in> set ?B \<or> Inr a \<in> set ?C"
    by (simp only: eq set_append Un_iff)
  then show ?thesis
  proof (elim disjE)
    assume "Inr a \<in> set ?A"
    then obtain c where "reviewCommentEntry c = Inr a"
      "actionable (isCommentActionable (rc_body c))"
      by auto
    then show ?thesis by blast
  next
    assume "Inr a \<in> set ?B"
    then obtain g where "generalCommentEntry ow rp n g = Inr a"
      "actionable (isCommentActionable (gc_body g))"
      by auto
    then show ?thesis by blast
  next
    assume "Inr a \<in> set ?C"
    then obtain rv where "reviewEntry rv = Inr a"
      "actionable (isCommentActionable (rv_body rv))"
      by auto
    then show ?thesis by blast
  qed
qed

section \<open>Severities of the actionable comments\<close>

lemma classifier_cases:
  "\<not> actionable (isCommentActionable b) \<or>
   severity (isCommentActionable b) \<in> {Some ''high'', Some ''medium'', Some ''low''}"
  by (cases b) (simp_all add: isCommentActionable_def notActionable_def Let_def)

lemma classifier_severity:
  "actionable (isCommentActionable b) \<Longrightarrow>
   severity (isCommentActionable b) \<in> {Some ''high'', Some ''medium'', Some ''low''}"
  using classifier_cases [of b] by blast

lemma getActionableComments_severity:
  assumes "c \<in> set (getActionableComments gh ow rp n)"
  shows "ac_severity c \<in> {Some ''high'', Some ''medium'', Some ''low''}"
proof -
  from getActionableComments_member [OF assms] consider
      (rc) x where "reviewCommentEntry x = Inr c" "actionable (isCommentActionable (rc_body x))"
    | (gc) x where "generalCommentEntry ow rp n x = Inr c"
        "actionable (isCommentActionable (gc_body x))"
    | (rv) x where "reviewEntry x = Inr c" "actionable (isCommentActionable (rv_body x))"
    by blast
  then show ?thesis
  proof cases
    case rc
    then show ?thesis
      using classifier_severity [of "rc_body x"] entry_Inr(1) [of x c] by simp
  next
    case gc
    then show ?thesis
      using classifier_severity [of "gc_body x"] entry_Inr(2) [of ow rp n x c] by simp
  next
    case rv
    then show ?thesis
      using classifier_severity [of "rv_body x"] entry_Inr(3) [of x c] by simp
  qed
qed

lemma severity_partition:
  "(\<And>c. c \<in> set cs \<Longrightarrow> ac_severity c \<in> {Some ''high'', Some ''medium'', Some ''low''}) \<Longrightarrow>
   length (filter (\<lambda>c. ac_severity c = Some ''high'') cs) +
   length (filter (\<lambda>c. ac_severity c = Some ''medium'') cs) +
   length (filter (\<lambda>c. ac_severity c = Some ''low'') cs) = length cs"
proof (induction cs)
  case Nil
  show ?case by simp
next
  case (Cons c cs)
  have "ac_severity c \<in> {Some ''high'', Some ''medium'', Some ''low''}"
    using Cons.prems by simp
  moreover have "length (filter (\<lambda>c. ac_severity c = Some ''high'') cs) +
   length (filter (\<lambda>c. ac_severity c = Some ''medium'') cs) +
   length (filter (\<lambda>c. ac_severity c = Some ''low'') cs) = length cs"
    using Cons by simp
  ultimately show ?case by auto
qed

section \<open>The filter on the reviews\<close>

lemma filter_map_none: "(\<And>x. \<not> P (f x)) \<Longrightarrow> filter P (map f xs) = []"
  by (induction xs) auto

lemma filter_map_all: "(\<And>x. x \<in> set xs \<Longrightarrow> P (f x)) \<Longrightarrow> filter P (map f xs) = map f xs"
  by (induction xs) auto

lemma map_Inr_filter:
  "map Inr (filter P xs) =
     filter (\<lambda>x. case x of Inl e \<Rightarrow> False | Inr a \<Rightarrow> P a) (map Inr xs)"
  by (induction xs) auto

lemma ex_review_verdicts:
  "actionable (isCommentActionable (Some ''Consider a shorter name''))"
  "actionable (isCommentActionable (Some ''This is broken''))"
  "actionable (isCommentActionable (Some ''Please fix the broken build''))"
  "actionable (isCommentActionable (Some ''Please fix this bug''))"
  "\<not> actionable (isCommentActionable (Some ''lgtm''))"
  "actionable (isCommentActionable (Some ''Could you add a test for this?''))"
  by code_simp+

text \<open>
  Claim C4, as stated, fails: the three loops run inside one \<open>try\<close> block whose
  \<open>catch\<close> returns the empty array, and building an entry reads the login of the
  author. With a second review that passes the three tests and has no author object,
  the first review, which passes them too and has an author, contributes nothing.
\<close>

theorem review_lost_with_null_author:
  "gh_pulls_reviews ex_github_ghost ''ppaul-h-aot'' ''MRToolGH'' 7 =
     Inr [ex_review_changes, ex_review_ghost] \<and>
   rv_body ex_review_changes = Some ''Consider a shorter name'' \<and>
   rv_state ex_review_changes = ''CHANGES_REQUESTED'' \<and>
   actionable (isCommentActionable (rv_body ex_review_changes)) \<and>
   rv_user_login ex_review_ghost = None \<and>
   getActionableComments ex_github_ghost ''ppaul-h-aot'' ''MRToolGH'' 7 = []"
proof -
  have a: "gh_pulls_reviews ex_github_ghost ''ppaul-h-aot'' ''MRToolGH'' 7 =
     Inr [ex_review_changes, ex_review_ghost]"
    "rv_body ex_review_changes = Some ''Consider a shorter name''"
    "rv_state ex_review_changes = ''CHANGES_REQUESTED''"
    "rv_user_login ex_review_ghost = None"
    by (simp_all add: ex_github_ghost_def ex_review_changes_def ex_review_ghost_def)
  have b: "actionable (isCommentActionable (rv_body ex_review_changes))"
    using ex_review_verdicts(1) by (simp add: a(2))
  have c: "getActionableComments ex_github_ghost ''ppaul-h-aot'' ''MRToolGH'' 7 = []"
    by code_simp
  from a b c show ?thesis by blast
qed

text \<open>
  Claim C4, amended. For a pull request whose three lists were fetched: every entry of
  type \<open>review\<close> among its actionable comments is the entry of a fetched review with a
  non-empty body, a state other than \<open>COMMENTED\<close> and a body the classifier finds
  actionable, so no entry comes from a review in state \<open>COMMENTED\<close>, whatever its body;
  and when every line comment, general comment and review that passes its test carries
  an author object, the entries of type \<open>review\<close> are, in order, the entries of exactly
  the reviews that pass the three tests.
\<close>

theorem review_filter:
  assumes "gh_pulls_comments gh ow rp n = Inr reviewComments"
    and "gh_pr_view_comments gh ow rp n = Inr generalCommentsResult"
    and "gh_pulls_reviews gh ow rp n = Inr reviews"
  shows "(\<forall>a\<in>set (getActionableComments gh ow rp n).
            ac_type a = ''review'' \<longrightarrow>
              (\<exists>rv\<in>set reviews.
                 reviewEntry rv = Inr a \<and>
                 (rv_body rv \<noteq> None \<and> rv_body rv \<noteq> Some []) \<and>
                 rv_state rv \<noteq> ''COMMENTED'' \<and>
                 actionable (isCommentActionable (rv_body rv))) \<and>
              ac_state a \<noteq> Some ''COMMENTED'') \<and>
         ((\<forall>c\<in>set reviewComments.
             actionable (isCommentActionable (rc_body c)) \<longrightarrow> rc_user_login c \<noteq> None) \<and>
          (\<forall>c\<in>set (case generalCommentsResult of None \<Rightarrow> [] | Some comments \<Rightarrow> comments).
             actionable (isCommentActionable (gc_body c)) \<longrightarrow> gc_author_login c \<noteq> None) \<and>
          (\<forall>rv\<in>set reviews.
             (rv_body rv \<noteq> None \<and> rv_body rv \<noteq> Some []) \<and> rv_state rv \<noteq> ''COMMENTED'' \<and>
             actionable (isCommentActionable (rv_body rv)) \<longrightarrow> rv_user_login rv \<noteq> None) \<longrightarrow>
          map Inr (filter (\<lambda>a. ac_type a = ''review'') (getActionableComments gh ow rp n)) =
            map reviewEntry
              (filter (\<lambda>rv. (rv_body rv \<noteq> None \<and> rv_body rv \<noteq> Some []) \<and>
                             rv_state rv \<noteq> ''COMMENTED'' \<and>
                             actionable (isCommentActionable (rv_body rv))) reviews))"
proof -
  let ?gcs = "case generalCommentsResult of None \<Rightarrow> [] | Some comments \<Rightarrow> comments"
  let ?cond = "\<lambda>rv. (rv_body rv \<noteq> None \<and> rv_body rv \<noteq> Some []) \<and>
                      rv_state rv \<noteq> ''COMMENTED'' \<and>
                      actionable (isCommentActionable (rv_body rv))"
  let ?A = "map reviewCommentEntry
      (filter (\<lambda>c. actionable (isCommentActionable (rc_body c))) reviewComments)"
  let ?B = "map (generalCommentEntry ow rp n)
      (filter (\<lambda>c. actionable (isCommentActionable (gc_body c))) ?gcs)"
  let ?C = "map reviewEntry (filter ?cond reviews)"
  let ?Q = "\<lambda>x. case x of Inl e \<Rightarrow> False | Inr a \<Rightarrow> ac_type a = ''review''"
  have only_if: "(\<exists>rv\<in>set reviews. reviewEntry rv = Inr a \<and> ?cond rv) \<and>
      ac_state a \<noteq> Some ''COMMENTED''"
    if a: "a \<in> set (getActionableComments gh ow rp n)" and t: "ac_type a = ''review''" for a
  proof -
    from a have ne: "getActionableComments gh ow rp n \<noteq> []" by auto
    with getActionableComments_fetched [OF assms]
    have eq: "map Inr (getActionableComments gh ow rp n) = ?A @ ?B @ ?C"
      by blast
    from a have "Inr a \<in> set (map Inr (getActionableComments gh ow rp n) ::
        (error + actionable_comment) list)"
      by simp
    then have "Inr a \<in> set ?A \<or> Inr a \<in> set ?B \<or> Inr a \<in> set ?C"
      by (simp only: eq set_append Un_iff)
    moreover have "Inr a \<notin> set ?A"
    proof
      assume "Inr a \<in> set ?A"
      then obtain c where "reviewCommentEntry c = Inr a" by auto
      from entry_Inr(1) [OF this] t show False by simp
    qed
    moreover have "Inr a \<notin> set ?B"
    proof
      assume "Inr a \<in> set ?B"
      then obtain g where "generalCommentEntry ow rp n g = Inr a" by auto
      from entry_Inr(2) [OF this] t show False by simp
    qed
    ultimately have "Inr a \<in> set ?C" by blast
    then obtain rv where rv: "rv \<in> set reviews" "?cond rv" "reviewEntry rv = Inr a"
      by auto
    from entry_Inr(3) [OF rv(3)] rv(2) have "ac_state a \<noteq> Some ''COMMENTED''"
      by simp
    with rv show ?thesis by blast
  qed
  have if_authors: "map Inr (filter (\<lambda>a. ac_type a = ''review'')
        (getActionableComments gh ow rp n)) = ?C"
    if h1: "\<forall>c\<in>set reviewComments.
             actionable (isCommentActionable (rc_body c)) \<longrightarrow> rc_user_login c \<noteq> None"
      and h2: "\<forall>c\<in>set ?gcs.
             actionable (isCommentActionable (gc_body c)) \<longrightarrow> gc_author_login c \<noteq> None"
      and h3: "\<forall>rv\<in>set reviews. ?cond rv \<longrightarrow> rv_user_login rv \<noteq> None"
  proof -
    have eq: "map Inr (getActionableComments gh ow rp n) = ?A @ ?B @ ?C"
      by (rule getActionableComments_with_authors [OF assms h1 h2 h3])
    have fa: "filter ?Q (map reviewCommentEntry xs) = []" for xs
    proof (rule filter_map_none)
      fix x
      show "\<not> ?Q (reviewCommentEntry x)"
        using entry_Inr(1) [of x] by (cases "reviewCommentEntry x") simp_all
    qed
    have fb: "filter ?Q (map (generalCommentEntry ow rp n) ys) = []" for ys
    proof (rule filter_map_none)
      fix x
      show "\<not> ?Q (generalCommentEntry ow rp n x)"
        using entry_Inr(2) [of ow rp n x] by (cases "generalCommentEntry ow rp n x") simp_all
    qed
    have fc: "filter ?Q ?C = ?C"
    proof (rule filter_map_all)
      fix rv
      assume "rv \<in> set (filter ?cond reviews)"
      with h3 have "rv_user_login rv \<noteq> None" by auto
      with entry_Inl(3) [of rv] obtain a where a: "reviewEntry rv = Inr a"
        by (cases "reviewEntry rv") auto
      with entry_Inr(3) [OF a] show "?Q (reviewEntry rv)" by simp
    qed
    have "map Inr (filter (\<lambda>a. ac_type a = ''review'') (getActionableComments gh ow rp n)) =
        filter ?Q (map Inr (getActionableComments gh ow rp n))"
      by (rule map_Inr_filter)
    also have "\<dots> = filter ?Q ?A @ filter ?Q ?B @ filter ?Q ?C"
      by (simp only: eq filter_append)
    also have "\<dots> = ?C"
      by (simp only: fa fb fc append_Nil)
    finally show ?thesis .
  qed
  from only_if if_authors show ?thesis by blast
qed

text \<open>
  Of the two reviews of the example, both with an author and with a body the classifier
  finds actionable, only the one in state \<open>CHANGES_REQUESTED\<close> yields an entry.
\<close>

theorem review_filter_witness:
  "gh_pulls_comments ex_github ''ppaul-h-aot'' ''MRToolGH'' 7 =
     Inr [ex_line_comment_bug, ex_line_comment_lgtm] \<and>
   gh_pr_view_comments ex_github ''ppaul-h-aot'' ''MRToolGH'' 7 = Inr (Some [ex_general_comment]) \<and>
   gh_pulls_reviews ex_github ''ppaul-h-aot'' ''MRToolGH'' 7 =
     Inr [ex_review_changes, ex_review_commented] \<and>
   rc_user_login ex_line_comment_bug \<noteq> None \<and>
   gc_author_login ex_general_comment \<noteq> None \<and>
   rv_user_login ex_review_changes \<noteq> None \<and>
   actionable (isCommentActionable (rv_body ex_review_commented)) \<and>
   rv_state ex_review_commented = ''COMMENTED'' \<and>
   filter (\<lambda>a. ac_type a = ''review'')
     (getActionableComments ex_github ''ppaul-h-aot'' ''MRToolGH'' 7) = [ex_entry_name] \<and>
   reviewEntry ex_review_changes = Inr ex_entry_name \<and>
   ex_entry_name \<in> set (getActionableComments ex_github ''ppaul-h-aot'' ''MRToolGH'' 7) \<and>
   ac_type ex_entry_name = ''review'' \<and>
   ac_state ex_entry_name \<noteq> Some ''COMMENTED''"
proof -
  let ?cond = "\<lambda>rv. (rv_body rv \<noteq> None \<and> rv_body rv \<noteq> Some []) \<and>
                      rv_state rv \<noteq> ''COMMENTED'' \<and>
                      actionable (isCommentActionable (rv_body rv))"
  have a: "gh_pulls_comments ex_github ''ppaul-h-aot'' ''MRToolGH'' 7 =
     Inr [ex_line_comment_bug, ex_line_comment_lgtm]"
    and b: "gh_pr_view_comments ex_github ''ppaul-h-aot'' ''MRToolGH'' 7 =
     Inr (Some [ex_general_comment])"
    and c: "gh_pulls_reviews ex_github ''ppaul-h-aot'' ''MRToolGH'' 7 =
     Inr [ex_review_changes, ex_review_commented]"
    by (simp_all add: ex_github_def)
  have u: "rc_user_login ex_line_comment_bug \<noteq> None"
    "gc_author_login ex_general_comment \<noteq> None"
    "rv_user_login ex_review_changes \<noteq> None"
    "\<not> actionable (isCommentActionable (rc_body ex_line_comment_lgtm))"
    using ex_review_verdicts
    by (simp_all add: ex_line_comment_bug_def ex_general_comment_def ex_review_changes_def
        ex_line_comment_lgtm_def)
  have d: "actionable (isCommentActionable (rv_body ex_review_commented))"
    "rv_state ex_review_commented = ''COMMENTED''"
    "?cond ex_review_changes"
    using ex_review_verdicts by (simp_all add: ex_review_commented_def ex_review_changes_def)
  have e: "reviewEntry ex_review_changes = Inr ex_entry_name"
    using ex_review_verdicts(1) classifier_cases [of "Some ''Consider a shorter name''"]
    by code_simp
  note t = review_filter [OF a b c]
  have "map Inr (filter (\<lambda>a. ac_type a = ''review'')
      (getActionableComments ex_github ''ppaul-h-aot'' ''MRToolGH'' 7)) =
      map reviewEntry (filter ?cond [ex_review_changes, ex_review_commented])"
    using t u d by simp
  also have "\<dots> = map Inr [ex_entry_name]"
    using d e by simp
  finally have "map Inr (filter (\<lambda>a. ac_type a = ''review'')
      (getActionableComments ex_github ''ppaul-h-aot'' ''MRToolGH'' 7)) =
      (map Inr [ex_entry_name] :: (error + actionable_comment) list)" .
  then have f: "filter (\<lambda>a. ac_type a = ''review'')
     (getActionableComments ex_github ''ppaul-h-aot'' ''MRToolGH'' 7) = [ex_entry_name]"
    by (simp only: inj_map_eq_map [OF inj_Inr])
  then have "ex_entry_name \<in> set (filter (\<lambda>a. ac_type a = ''review'')
     (getActionableComments ex_github ''ppaul-h-aot'' ''MRToolGH'' 7))"
    by simp
  then have m: "ex_entry_name \<in>
     set (getActionableComments ex_github ''ppaul-h-aot'' ''MRToolGH'' 7)"
    "ac_type ex_entry_name = ''review''"
    by simp_all
  with t have "ac_state ex_entry_name \<noteq> Some ''COMMENTED''"
    by blast
  with a b c u(1-3) d(1,2) e f m show ?thesis by blast
qed

section \<open>The loops of the refresh, one element at a time\<close>

lemma monitorLoop_concat:
  "monitorLoop gh ck ns repos = repos @ concat (map (\<lambda>n. monitorLoop gh ck [n] []) ns)"
  by (induction ns arbitrary: repos) (simp_all add: Let_def split: sum.splits option.splits)

lemma processPrs_concat:
  "processPrs gh ow rp ps acc = acc @ concat (map (\<lambda>p. processPrs gh ow rp [p] []) ps)"
  by (induction ps arbitrary: acc) (simp_all add: Let_def)

lemma processRepos_concat:
  "processRepos gh ck rs acc = acc @ concat (map (\<lambda>r. processRepos gh ck [r] []) rs)"
  by (induction rs arbitrary: acc) (simp_all add: Let_def split: sum.splits)

lemma processRepos_append:
  "processRepos gh ck (xs @ ys) [] = processRepos gh ck xs [] @ processRepos gh ck ys []"
  by (simp add: processRepos_concat [of gh ck "xs @ ys" "[]"]
      processRepos_concat [of gh ck xs "[]"] processRepos_concat [of gh ck ys "[]"])

lemma processRepos_concat_lists:
  "processRepos gh ck (concat xss) [] = concat (map (\<lambda>xs. processRepos gh ck xs []) xss)"
proof (induction xss)
  case Nil
  show ?case by simp
next
  case (Cons xs xss)
  then show ?case by (simp add: processRepos_append)
qed

lemma repositories_by_name:
  "processRepos gh ck (getRepositoriesToMonitor gh ck) [] =
     concat (map (\<lambda>n. processRepos gh ck (monitorLoop gh ck [n] []) []) reposToMonitor)"
proof -
  have "getRepositoriesToMonitor gh ck = concat (map (\<lambda>n. monitorLoop gh ck [n] []) reposToMonitor)"
    unfolding getRepositoriesToMonitor_def
    by (simp add: monitorLoop_concat [of gh ck reposToMonitor "[]"])
  then show ?thesis
    by (simp add: processRepos_concat_lists comp_def)
qed

lemma paths_distinct: "prDataFile \<noteq> lastUpdateFile"
  by (simp add: prDataFile_def lastUpdateFile_def)

lemma monitorLoop_member:
  assumes "rd \<in> set (monitorLoop gh ck ns [])"
  shows "\<exists>n\<in>set ns. gh_repo_view gh n = Inr rd \<and>
           (\<exists>p. repo_pushedAt rd = Some p \<and> repoCheckedAt ck n - thirtyDays \<le> p)"
proof -
  from assms obtain n where n: "n \<in> set ns" "rd \<in> set (monitorLoop gh ck [n] [])"
    by (auto simp: monitorLoop_concat [of gh ck ns "[]"])
  from n(2) have "gh_repo_view gh n = Inr rd \<and>
           (\<exists>p. repo_pushedAt rd = Some p \<and> repoCheckedAt ck n - thirtyDays \<le> p)"
    by (auto simp: executeGhCommand_def Let_def split: sum.splits option.splits if_splits)
  with n(1) show ?thesis by blast
qed

lemma processPrs_member:
  assumes "s \<in> set (processPrs gh ow rp ps [])"
  shows "pr s \<in> set ps \<and>
         actionableComments s = getActionableComments gh ow rp (pr_number (pr s)) \<and>
         actionableComments s \<noteq> [] \<and>
         actionableCount s = length (actionableComments s) \<and>
         high (severityCounts s) + medium (severityCounts s) + low (severityCounts s) =
           actionableCount s"
proof -
  from assms obtain p where p: "p \<in> set ps" "s \<in> set (processPrs gh ow rp [p] [])"
    by (auto simp: processPrs_concat [of gh ow rp ps "[]"])
  let ?cs = "getActionableComments gh ow rp (pr_number p)"
  from p(2) have s: "?cs \<noteq> []" "pr s = p" "actionableComments s = ?cs"
    "actionableCount s = length ?cs"
    "severityCounts s =
       \<lparr>high = length (filter (\<lambda>c. ac_severity c = Some ''high'') ?cs),
        medium = length (filter (\<lambda>c. ac_severity c = Some ''medium'') ?cs),
        low = length (filter (\<lambda>c. ac_severity c = Some ''low'') ?cs)\<rparr>"
    by (auto simp: Let_def split: if_splits)
  have "high (severityCounts s) + medium (severityCounts s) + low (severityCounts s) = length ?cs"
    unfolding s(5) using severity_partition [of ?cs] getActionableComments_severity [of _ gh ow rp "pr_number p"]
    by simp
  with p(1) s show ?thesis by simp
qed

lemma processRepos_member:
  assumes "r \<in> set (processRepos gh ck rs [])"
  shows "\<exists>rd\<in>set rs. owner r = repo_owner_login rd \<and> name r = repo_name rd \<and>
           url r = repo_url rd \<and> lastPush r = repo_pushedAt rd \<and> pullRequests r \<noteq> [] \<and>
           (\<exists>prs. pullRequests r = processPrs gh (owner r) (name r) prs [])"
proof -
  from assms obtain rd where rd: "rd \<in> set rs" "r \<in> set (processRepos gh ck [rd] [])"
    by (auto simp: processRepos_concat [of gh ck rs "[]"])
  from rd(2) have "owner r = repo_owner_login rd \<and> name r = repo_name rd \<and>
           url r = repo_url rd \<and> lastPush r = repo_pushedAt rd \<and> pullRequests r \<noteq> [] \<and>
           (\<exists>prs. pullRequests r = processPrs gh (owner r) (name r) prs [])"
    by (auto simp: Let_def split: sum.splits if_splits)
  with rd(1) show ?thesis by blast
qed

lemma foldl_sum: "foldl (\<lambda>sum x. sum + f x) (a::nat) xs = a + sum_list (map f xs)"
  by (induction xs arbitrary: a) simp_all

lemma fetchAllData_fst:
  "fst (fetchAllData gh ck fs) =
     (case writeError fs prDataFile of
        Some e \<Rightarrow> Inl e
      | None \<Rightarrow>
          (case writeError fs lastUpdateFile of
             Some e \<Rightarrow> Inl e
           | None \<Rightarrow>
               Inr \<lparr>lastUpdate = fetchStartedAt ck,
                     repositories = processRepos gh ck (getRepositoriesToMonitor gh ck) []\<rparr>))"
  by (simp add: fetchAllData_def writeFileSync_def Let_def split: option.splits)

lemma fetchAllData_snapshot_file:
  "writeError fs prDataFile = None \<Longrightarrow>
   files (snd (fetchAllData gh ck fs)) prDataFile =
     Content (JSON_stringify (JSnapshot
       \<lparr>lastUpdate = fetchStartedAt ck,
        repositories = processRepos gh ck (getRepositoriesToMonitor gh ck) []\<rparr>))"
  using paths_distinct
  by (simp add: fetchAllData_def writeFileSync_def Let_def split: option.splits)

lemma fetchAllData_metadata_file:
  "writeError fs prDataFile = None \<Longrightarrow> writeError fs lastUpdateFile = None \<Longrightarrow>
   files (snd (fetchAllData gh ck fs)) lastUpdateFile =
     Content (JSON_stringify (JMetadata (updateInfo
       \<lparr>lastUpdate = fetchStartedAt ck,
        repositories = processRepos gh ck (getRepositoriesToMonitor gh ck) []\<rparr>)))"
  by (simp add: fetchAllData_def writeFileSync_def Let_def)

lemma fetchAllData_metadata_file_kept:
  "writeError fs prDataFile = None \<Longrightarrow> writeError fs lastUpdateFile = Some e \<Longrightarrow>
   failedWriteLeaves fs lastUpdateFile = None \<Longrightarrow>
   files (snd (fetchAllData gh ck fs)) lastUpdateFile = files fs lastUpdateFile"
  using paths_distinct
  by (simp add: fetchAllData_def writeFileSync_def Let_def)

lemma fetchAllData_first_write_cut_short:
  "writeError fs prDataFile = Some e \<Longrightarrow> failedWriteLeaves fs prDataFile = Some remains \<Longrightarrow>
   fetchAllData gh ck fs = (Inl e, fs\<lparr>files := (files fs)(prDataFile := Content remains)\<rparr>)"
  by (simp add: fetchAllData_def writeFileSync_def Let_def)

lemma fetchAllData_Inr:
  assumes "fst (fetchAllData gh ck fs) = Inr s"
  shows "s = \<lparr>lastUpdate = fetchStartedAt ck,
              repositories = processRepos gh ck (getRepositoriesToMonitor gh ck) []\<rparr>"
    and "writeError fs prDataFile = None" and "writeError fs lastUpdateFile = None"
  using assms by (auto simp: fetchAllData_fst split: option.splits)

subsection \<open>The example, evaluated\<close>

lemma ex_repositories:
  "processRepos ex_github ex_clock (getRepositoriesToMonitor ex_github ex_clock) [] =
     repositories ex_snapshot"
  by code_simp

lemma ex_snapshot_built:
  "\<lparr>lastUpdate = fetchStartedAt ex_clock,
    repositories = processRepos ex_github ex_clock (getRepositoriesToMonitor ex_github ex_clock) []\<rparr>
   = ex_snapshot"
  using ex_repositories by (simp add: ex_clock_def ex_snapshot_def)

lemma ex_fetch: "fst (fetchAllData ex_github ex_clock ex_fs) = Inr ex_snapshot"
proof -
  have w: "writeError ex_fs prDataFile = None" "writeError ex_fs lastUpdateFile = None"
    by (simp_all add: ex_fs_def)
  show ?thesis
    by (simp only: fetchAllData_fst w option.case ex_snapshot_built)
qed

lemma ex_files_after:
  "files (snd (fetchAllData ex_github ex_clock ex_fs)) prDataFile =
     Content (Json (JSnapshot ex_snapshot))"
  "files (snd (fetchAllData ex_github ex_clock ex_fs)) lastUpdateFile =
     Content (Json (JMetadata (updateInfo ex_snapshot)))"
proof -
  have w: "writeError ex_fs prDataFile = None" "writeError ex_fs lastUpdateFile = None"
    by (simp_all add: ex_fs_def)
  show "files (snd (fetchAllData ex_github ex_clock ex_fs)) prDataFile =
     Content (Json (JSnapshot ex_snapshot))"
    using fetchAllData_snapshot_file [OF w(1), of ex_github ex_clock]
    by (simp only: ex_snapshot_built JSON_stringify_def)
  show "files (snd (fetchAllData ex_github ex_clock ex_fs)) lastUpdateFile =
     Content (Json (JMetadata (updateInfo ex_snapshot)))"
    using fetchAllData_metadata_file [OF w, of ex_github ex_clock]
    by (simp only: ex_snapshot_built JSON_stringify_def)
qed

lemma ex_fetch_late:
  "fst (fetchAllData ex_github ex_clock_late ex_fs) =
     Inr \<lparr>lastUpdate = 1702592001000, repositories = []\<rparr>"
proof -
  have "processRepos ex_github ex_clock_late (getRepositoriesToMonitor ex_github ex_clock_late) [] = []"
    by code_simp
  moreover have "writeError ex_fs prDataFile = None" "writeError ex_fs lastUpdateFile = None"
    "fetchStartedAt ex_clock_late = 1702592001000"
    by (simp_all add: ex_fs_def ex_clock_late_def)
  ultimately show ?thesis
    by (simp only: fetchAllData_fst option.case)
qed

section \<open>Properties of fetchAllData\<close>

text \<open>
  Claim C5. In the snapshot \<open>fetchAllData\<close> returns, every repository has at least one
  pull request, and every pull request listed carries the actionable comments fetched for
  it, at least one, with \<open>actionableCount\<close> their number and the three severity counts
  adding up to it; so a pull request without actionable comments is not listed.
\<close>

theorem snapshot_counts:
  assumes "fst (fetchAllData gh ck fs) = Inr s"
  shows "\<forall>r\<in>set (repositories s).
           pullRequests r \<noteq> [] \<and>
           (\<forall>p\<in>set (pullRequests r).
              actionableComments p = getActionableComments gh (owner r) (name r) (pr_number (pr p)) \<and>
              actionableCount p = length (actionableComments p) \<and>
              high (severityCounts p) + medium (severityCounts p) + low (severityCounts p) =
                actionableCount p \<and>
              actionableComments p \<noteq> [])"
proof
  fix r
  assume "r \<in> set (repositories s)"
  then have "r \<in> set (processRepos gh ck (getRepositoriesToMonitor gh ck) [])"
    using fetchAllData_Inr(1) [OF assms] by simp
  from processRepos_member [OF this] obtain prs where
    r: "pullRequests r \<noteq> []" "pullRequests r = processPrs gh (owner r) (name r) prs []"
    by blast
  have "actionableComments p = getActionableComments gh (owner r) (name r) (pr_number (pr p)) \<and>
        actionableCount p = length (actionableComments p) \<and>
        high (severityCounts p) + medium (severityCounts p) + low (severityCounts p) =
          actionableCount p \<and>
        actionableComments p \<noteq> []"
    if "p \<in> set (pullRequests r)" for p
  proof -
    from that have "p \<in> set (processPrs gh (owner r) (name r) prs [])"
      by (simp only: r(2))
    from processPrs_member [OF this] show ?thesis by blast
  qed
  with r(1) show "pullRequests r \<noteq> [] \<and>
           (\<forall>p\<in>set (pullRequests r).
              actionableComments p = getActionableComments gh (owner r) (name r) (pr_number (pr p)) \<and>
              actionableCount p = length (actionableComments p) \<and>
              high (severityCounts p) + medium (severityCounts p) + low (severityCounts p) =
                actionableCount p \<and>
              actionableComments p \<noteq> [])"
    by blast
qed

text \<open>
  The pull request of the example has three actionable comments, a line comment that is
  not actionable and a review that is left out: both counts are 3.
\<close>

theorem snapshot_counts_witness:
  "fst (fetchAllData ex_github ex_clock ex_fs) = Inr ex_snapshot \<and>
   map (\<lambda>r. map (\<lambda>p. (actionableCount p, length (actionableComments p),
                       high (severityCounts p) + medium (severityCounts p) +
                       low (severityCounts p)))
               (pullRequests r))
     (repositories ex_snapshot) = [[(3, 3, 3)]]"
proof -
  have vals: "map (\<lambda>r. map (\<lambda>p. (actionableCount p, length (actionableComments p),
                       high (severityCounts p) + medium (severityCounts p) +
                       low (severityCounts p)))
               (pullRequests r))
     (repositories ex_snapshot) = [[(3, 3, 3)]]"
    by (simp add: ex_snapshot_def)
  from snapshot_counts [OF ex_fetch] ex_fetch vals show ?thesis by blast
qed

text \<open>
  Claim C6. A repository is in the snapshot only if its reply gives a last push no more
  than 30 days before the clock reading taken when that repository is checked. The
  snapshot is made of what each configured name contributes, and a name whose last push
  is 31 days before its check contributes nothing, whatever its pull requests.
\<close>

theorem stale_repository_excluded:
  "(fst (fetchAllData gh ck fs) = Inr s \<longrightarrow>
      (\<forall>r\<in>set (repositories s).
         \<exists>n\<in>set reposToMonitor. \<exists>rd p.
           gh_repo_view gh n = Inr rd \<and> owner r = repo_owner_login rd \<and>
           name r = repo_name rd \<and> lastPush r = Some p \<and>
           repoCheckedAt ck n - 30 * 24 * 60 * 60 * 1000 \<le> p) \<and>
      repositories s =
        concat (map (\<lambda>n. processRepos gh ck (monitorLoop gh ck [n] []) []) reposToMonitor)) \<and>
   (gh_repo_view gh n = Inr rd \<and>
    repo_pushedAt rd = Some (repoCheckedAt ck n - 31 * 24 * 60 * 60 * 1000) \<longrightarrow>
      monitorLoop gh ck [n] [] = [] \<and> processRepos gh ck (monitorLoop gh ck [n] []) [] = [])"
proof -
  have in_window: "\<exists>n\<in>set reposToMonitor. \<exists>rd p.
           gh_repo_view gh n = Inr rd \<and> owner r = repo_owner_login rd \<and>
           name r = repo_name rd \<and> lastPush r = Some p \<and>
           repoCheckedAt ck n - 30 * 24 * 60 * 60 * 1000 \<le> p"
    if s: "fst (fetchAllData gh ck fs) = Inr s" and r: "r \<in> set (repositories s)" for r
  proof -
    from r have "r \<in> set (processRepos gh ck (getRepositoriesToMonitor gh ck) [])"
      using fetchAllData_Inr(1) [OF s] by simp
    from processRepos_member [OF this] obtain rd where
      rd: "rd \<in> set (getRepositoriesToMonitor gh ck)" "owner r = repo_owner_login rd"
        "name r = repo_name rd" "lastPush r = repo_pushedAt rd"
      by blast
    from monitorLoop_member [of rd gh ck reposToMonitor] rd(1) obtain n p where
      "n \<in> set reposToMonitor" "gh_repo_view gh n = Inr rd" "repo_pushedAt rd = Some p"
      "repoCheckedAt ck n - thirtyDays \<le> p"
      by (auto simp: getRepositoriesToMonitor_def)
    with rd show ?thesis by (auto simp: thirtyDays_def)
  qed
  have by_name: "repositories s =
        concat (map (\<lambda>n. processRepos gh ck (monitorLoop gh ck [n] []) []) reposToMonitor)"
    if s: "fst (fetchAllData gh ck fs) = Inr s"
    using fetchAllData_Inr(1) [OF s] repositories_by_name [of gh ck] by simp
  have stale: "monitorLoop gh ck [n] [] = [] \<and> processRepos gh ck (monitorLoop gh ck [n] []) [] = []"
    if "gh_repo_view gh n = Inr rd"
      "repo_pushedAt rd = Some (repoCheckedAt ck n - 31 * 24 * 60 * 60 * 1000)"
    using that by (simp add: executeGhCommand_def thirtyDays_def Let_def)
  from in_window by_name stale show ?thesis by blast
qed

text \<open>
  On the first clock the repository of the example is in the snapshot, pushed to one day
  before its check; on the second clock the same repository, with its pull request, was
  pushed to 31 days before the check and the snapshot is empty.
\<close>

theorem stale_repository_excluded_witness:
  "fst (fetchAllData ex_github ex_clock ex_fs) = Inr ex_snapshot \<and>
   map lastPush (repositories ex_snapshot) = [Some 1699913600000] \<and>
   repoCheckedAt ex_clock ''ppaul-h-aot/MRToolGH'' - 30 * 24 * 60 * 60 * 1000 \<le> 1699913600000 \<and>
   gh_repo_view ex_github ''ppaul-h-aot/MRToolGH'' = Inr ex_repo \<and>
   repo_pushedAt ex_repo =
     Some (repoCheckedAt ex_clock_late ''ppaul-h-aot/MRToolGH'' - 31 * 24 * 60 * 60 * 1000) \<and>
   gh_pr_list ex_github ''ppaul-h-aot'' ''MRToolGH'' = Inr [ex_pr] \<and>
   monitorLoop ex_github ex_clock_late [''ppaul-h-aot/MRToolGH''] [] = [] \<and>
   processRepos ex_github ex_clock_late
     (monitorLoop ex_github ex_clock_late [''ppaul-h-aot/MRToolGH''] []) [] = [] \<and>
   fst (fetchAllData ex_github ex_clock_late ex_fs) =
     Inr \<lparr>lastUpdate = 1702592001000, repositories = []\<rparr> \<and>
   concat (map (\<lambda>n. processRepos ex_github ex_clock_late
                      (monitorLoop ex_github ex_clock_late [n] []) []) reposToMonitor) = []"
proof -
  have a: "gh_repo_view ex_github ''ppaul-h-aot/MRToolGH'' = Inr ex_repo"
    and b: "repo_pushedAt ex_repo =
     Some (repoCheckedAt ex_clock_late ''ppaul-h-aot/MRToolGH'' - 31 * 24 * 60 * 60 * 1000)"
    and c: "gh_pr_list ex_github ''ppaul-h-aot'' ''MRToolGH'' = Inr [ex_pr]"
    and d: "map lastPush (repositories ex_snapshot) = [Some 1699913600000]"
    and e: "repoCheckedAt ex_clock ''ppaul-h-aot/MRToolGH'' - 30 * 24 * 60 * 60 * 1000
              \<le> 1699913600000"
    by (simp_all add: ex_github_def ex_repo_def ex_clock_late_def ex_clock_def ex_snapshot_def)
  from stale_repository_excluded
    [of ex_github ex_clock_late ex_fs "\<lparr>lastUpdate = 1702592001000, repositories = []\<rparr>"
        "''ppaul-h-aot/MRToolGH''" ex_repo] a b ex_fetch_late
  have late: "monitorLoop ex_github ex_clock_late [''ppaul-h-aot/MRToolGH''] [] = []"
    "processRepos ex_github ex_clock_late
       (monitorLoop ex_github ex_clock_late [''ppaul-h-aot/MRToolGH''] []) [] = []"
    "concat (map (\<lambda>n. processRepos ex_github ex_clock_late
                      (monitorLoop ex_github ex_clock_late [n] []) []) reposToMonitor) = []"
    by simp_all
  from ex_fetch ex_fetch_late a b c d e late show ?thesis by blast
qed

text \<open>
  Claim C2, as stated, fails: the two files are written outside every \<open>try\<close>, so with
  a repository whose metadata fetch throws and a data directory that refuses the write,
  the exception of \<open>writeFileSync\<close> leaves \<open>fetchAllData\<close> and no snapshot is
  returned.
\<close>

theorem refresh_exception_escapes:
  "gh_repo_view ex_github ''h1-aot/aot-base'' = Inl ''Could not resolve to a Repository'' \<and>
   fst (fetchAllData ex_github ex_clock ex_fs_denied) = Inl (Error ''EACCES: permission denied'')"
  by (simp add: fetchAllData_fst ex_fs_denied_def ex_github_def)

text \<open>
  Claim C2, amended. When both writes succeed \<open>fetchAllData\<close> returns a snapshot whose
  repositories are what each configured name contributes on its own, in order; a name
  whose metadata fetch throws, or whose pull-request listing throws, contributes nothing.
  The only exception that leaves \<open>fetchAllData\<close> is that of a failed write of one of
  the two files, never that of a call of the GitHub CLI.
\<close>

theorem refresh_skips_failing_repositories:
  "(writeError fs prDataFile = None \<and> writeError fs lastUpdateFile = None \<longrightarrow>
      (\<exists>s. fst (fetchAllData gh ck fs) = Inr s \<and>
           repositories s =
             concat (map (\<lambda>n. processRepos gh ck (monitorLoop gh ck [n] []) [])
                       reposToMonitor))) \<and>
   (fst (fetchAllData gh ck fs) = Inl e \<longrightarrow>
      writeError fs prDataFile = Some e \<or> writeError fs lastUpdateFile = Some e) \<and>
   (gh_repo_view gh n = Inl m \<longrightarrow> processRepos gh ck (monitorLoop gh ck [n] []) [] = []) \<and>
   (gh_repo_view gh n = Inr rd \<and> gh_pr_list gh (repo_owner_login rd) (repo_name rd) = Inl m \<longrightarrow>
      processRepos gh ck (monitorLoop gh ck [n] []) [] = [])"
proof -
  have ok: "\<exists>s. fst (fetchAllData gh ck fs) = Inr s \<and>
           repositories s =
             concat (map (\<lambda>n. processRepos gh ck (monitorLoop gh ck [n] []) [])
                       reposToMonitor)"
    if "writeError fs prDataFile = None" "writeError fs lastUpdateFile = None"
    using that repositories_by_name [of gh ck] by (simp add: fetchAllData_fst)
  have err: "writeError fs prDataFile = Some e \<or> writeError fs lastUpdateFile = Some e"
    if "fst (fetchAllData gh ck fs) = Inl e"
    using that by (auto simp: fetchAllData_fst split: option.splits)
  have meta: "processRepos gh ck (monitorLoop gh ck [n] []) [] = []"
    if "gh_repo_view gh n = Inl m"
    using that by (simp add: executeGhCommand_def)
  have prs: "processRepos gh ck (monitorLoop gh ck [n] []) [] = []"
    if "gh_repo_view gh n = Inr rd" "gh_pr_list gh (repo_owner_login rd) (repo_name rd) = Inl m"
    using that by (simp add: executeGhCommand_def Let_def split: option.splits)
  from ok err meta prs show ?thesis by blast
qed

text \<open>
  In the example the first configured name does not resolve; the snapshot is that of the
  second. When the listing of its pull requests fails, the second contributes nothing
  either; when the write is refused, the error is that of the write.
\<close>

theorem refresh_skips_failing_repositories_witness:
  "writeError ex_fs prDataFile = None \<and> writeError ex_fs lastUpdateFile = None \<and>
   gh_repo_view ex_github ''h1-aot/aot-base'' = Inl ''Could not resolve to a Repository'' \<and>
   processRepos ex_github ex_clock (monitorLoop ex_github ex_clock [''h1-aot/aot-base''] []) [] = [] \<and>
   fst (fetchAllData ex_github ex_clock ex_fs) = Inr ex_snapshot \<and>
   repositories ex_snapshot =
     concat (map (\<lambda>n. processRepos ex_github ex_clock (monitorLoop ex_github ex_clock [n] []) [])
               reposToMonitor) \<and>
   fst (fetchAllData ex_github ex_clock ex_fs_denied) = Inl (Error ''EACCES: permission denied'') \<and>
   writeError ex_fs_denied prDataFile = Some (Error ''EACCES: permission denied'') \<and>
   gh_repo_view ex_github_no_pr_list ''ppaul-h-aot/MRToolGH'' = Inr ex_repo \<and>
   gh_pr_list ex_github_no_pr_list (repo_owner_login ex_repo) (repo_name ex_repo) =
     Inl ''HTTP 502: Bad Gateway'' \<and>
   processRepos ex_github_no_pr_list ex_clock
     (monitorLoop ex_github_no_pr_list ex_clock [''ppaul-h-aot/MRToolGH''] []) [] = []"
proof -
  have a: "writeError ex_fs prDataFile = None" "writeError ex_fs lastUpdateFile = None"
    by (simp_all add: ex_fs_def)
  have b: "gh_repo_view ex_github ''h1-aot/aot-base'' = Inl ''Could not resolve to a Repository''"
    by (simp add: ex_github_def)
  have c: "fst (fetchAllData ex_github ex_clock ex_fs_denied) =
      Inl (Error ''EACCES: permission denied'')"
    "writeError ex_fs_denied prDataFile = Some (Error ''EACCES: permission denied'')"
    by (simp_all add: fetchAllData_fst ex_fs_denied_def)
  have d: "gh_repo_view ex_github_no_pr_list ''ppaul-h-aot/MRToolGH'' = Inr ex_repo"
    "gh_pr_list ex_github_no_pr_list (repo_owner_login ex_repo) (repo_name ex_repo) =
       Inl ''HTTP 502: Bad Gateway''"
    by (simp_all add: ex_github_no_pr_list_def ex_github_def)
  from refresh_skips_failing_repositories
    [of ex_fs ex_github ex_clock _ "''h1-aot/aot-base''" "''Could not resolve to a Repository''"]
    a b ex_fetch
  have 1: "processRepos ex_github ex_clock
       (monitorLoop ex_github ex_clock [''h1-aot/aot-base''] []) [] = []"
    "repositories ex_snapshot =
     concat (map (\<lambda>n. processRepos ex_github ex_clock (monitorLoop ex_github ex_clock [n] []) [])
               reposToMonitor)"
    by auto
  from refresh_skips_failing_repositories
    [of ex_fs_denied ex_github_no_pr_list ex_clock _ "''ppaul-h-aot/MRToolGH''"
        "''HTTP 502: Bad Gateway''" ex_repo] d
  have 2: "processRepos ex_github_no_pr_list ex_clock
     (monitorLoop ex_github_no_pr_list ex_clock [''ppaul-h-aot/MRToolGH''] []) [] = []"
    by blast
  from a b c d ex_fetch 1 2 show ?thesis by blast
qed

text \<open>
  Claim C3, as stated, fails: the two files are replaced by two writes, one after the
  other. When the write of the metadata file fails, the snapshot file is new and the
  metadata file still holds the counts of the earlier refresh.
\<close>

theorem refresh_not_atomic:
  "files ex_fs_stale prDataFile = Missing \<and>
   files ex_fs_stale lastUpdateFile = Content (JSON_stringify (JMetadata ex_old_metadata)) \<and>
   files (snd (fetchAllData ex_github ex_clock ex_fs_stale)) prDataFile =
     Content (JSON_stringify (JSnapshot ex_snapshot)) \<and>
   files (snd (fetchAllData ex_github ex_clock ex_fs_stale)) lastUpdateFile =
     Content (JSON_stringify (JMetadata ex_old_metadata)) \<and>
   updateInfo ex_snapshot \<noteq> ex_old_metadata"
proof -
  have ne: "updateInfo ex_snapshot \<noteq> ex_old_metadata"
  proof
    assume "updateInfo ex_snapshot = ex_old_metadata"
    then have "repositoryCount (updateInfo ex_snapshot) = repositoryCount ex_old_metadata"
      by simp
    then show False by (simp add: updateInfo_def ex_snapshot_def ex_old_metadata_def)
  qed
  have w: "writeError ex_fs_stale prDataFile = None"
    "writeError ex_fs_stale lastUpdateFile = Some (Error ''EACCES: permission denied'')"
    "failedWriteLeaves ex_fs_stale lastUpdateFile = None"
    and f: "files ex_fs_stale prDataFile = Missing"
    "files ex_fs_stale lastUpdateFile = Content (JSON_stringify (JMetadata ex_old_metadata))"
    using paths_distinct by (simp_all add: ex_fs_stale_def)
  have s: "files (snd (fetchAllData ex_github ex_clock ex_fs_stale)) prDataFile =
     Content (JSON_stringify (JSnapshot ex_snapshot))"
    using fetchAllData_snapshot_file [OF w(1), of ex_github ex_clock]
    by (simp only: ex_snapshot_built)
  have m: "files (snd (fetchAllData ex_github ex_clock ex_fs_stale)) lastUpdateFile =
     Content (JSON_stringify (JMetadata ex_old_metadata))"
    using fetchAllData_metadata_file_kept [OF w, of ex_github ex_clock]
    by (simp only: f)
  from f s m ne show ?thesis by blast
qed

text \<open>
  Claim C3, amended. \<open>fetchAllData\<close> writes the snapshot file and then the metadata
  file, by two writes and not by one replacement of both: when the second write fails,
  \<open>fetchAllData\<close> throws with the snapshot file already holding the new snapshot.
  Whenever it returns, the snapshot file holds the snapshot returned and the metadata
  file holds its \<open>lastUpdate\<close>, the number of its repositories, of their pull requests
  and of their actionable comments.
\<close>

theorem refresh_writes_snapshot_then_metadata:
  "(fst (fetchAllData gh ck fs) = Inr s \<longrightarrow>
      files (snd (fetchAllData gh ck fs)) prDataFile = Content (JSON_stringify (JSnapshot s)) \<and>
      (\<exists>m. files (snd (fetchAllData gh ck fs)) lastUpdateFile =
              Content (JSON_stringify (JMetadata m)) \<and>
           md_lastUpdate m = lastUpdate s \<and>
           repositoryCount m = length (repositories s) \<and>
           totalPRs m = sum_list (map (\<lambda>r. length (pullRequests r)) (repositories s)) \<and>
           totalActionableComments m =
             sum_list (map (\<lambda>r. sum_list (map (\<lambda>p. length (actionableComments p))
                                            (pullRequests r))) (repositories s)))) \<and>
   (writeError fs prDataFile = None \<and> writeError fs lastUpdateFile = Some e \<longrightarrow>
      fst (fetchAllData gh ck fs) = Inl e \<and>
      files (snd (fetchAllData gh ck fs)) prDataFile =
        Content (JSON_stringify (JSnapshot
          \<lparr>lastUpdate = fetchStartedAt ck,
           repositories = processRepos gh ck (getRepositoriesToMonitor gh ck) []\<rparr>)))"
proof -
  have both: "files (snd (fetchAllData gh ck fs)) prDataFile = Content (JSON_stringify (JSnapshot s)) \<and>
      (\<exists>m. files (snd (fetchAllData gh ck fs)) lastUpdateFile =
              Content (JSON_stringify (JMetadata m)) \<and>
           md_lastUpdate m = lastUpdate s \<and>
           repositoryCount m = length (repositories s) \<and>
           totalPRs m = sum_list (map (\<lambda>r. length (pullRequests r)) (repositories s)) \<and>
           totalActionableComments m =
             sum_list (map (\<lambda>r. sum_list (map (\<lambda>p. length (actionableComments p))
                                            (pullRequests r))) (repositories s)))"
    if s: "fst (fetchAllData gh ck fs) = Inr s"
  proof -
    note facts = fetchAllData_Inr [OF s]
    have counts: "actionableCount p = length (actionableComments p)"
      if "r \<in> set (repositories s)" "p \<in> set (pullRequests r)" for r p
    proof -
      from that(1) have "r \<in> set (processRepos gh ck (getRepositoriesToMonitor gh ck) [])"
        using facts(1) by simp
      from processRepos_member [OF this] obtain prs where
        "pullRequests r = processPrs gh (owner r) (name r) prs []"
        by blast
      with that(2) have "p \<in> set (processPrs gh (owner r) (name r) prs [])"
        by simp
      from processPrs_member [OF this] show ?thesis by blast
    qed
    have inner: "sum_list (map actionableCount (pullRequests r)) =
        sum_list (map (\<lambda>p. length (actionableComments p)) (pullRequests r))"
      if r: "r \<in> set (repositories s)" for r
    proof -
      have "map actionableCount (pullRequests r) =
          map (\<lambda>p. length (actionableComments p)) (pullRequests r)"
        by (rule map_cong [OF refl]) (rule counts [OF r])
      then show ?thesis by (rule arg_cong)
    qed
    have total: "sum_list (map (\<lambda>r. sum_list (map actionableCount (pullRequests r))) (repositories s)) =
        sum_list (map (\<lambda>r. sum_list (map (\<lambda>p. length (actionableComments p))
                                            (pullRequests r))) (repositories s))"
    proof -
      have "map (\<lambda>r. sum_list (map actionableCount (pullRequests r))) (repositories s) =
          map (\<lambda>r. sum_list (map (\<lambda>p. length (actionableComments p))
                                            (pullRequests r))) (repositories s)"
        by (rule map_cong [OF refl]) (rule inner)
      then show ?thesis by (rule arg_cong)
    qed
    have info: "md_lastUpdate (updateInfo s) = lastUpdate s"
      "repositoryCount (updateInfo s) = length (repositories s)"
      "totalPRs (updateInfo s) = sum_list (map (\<lambda>r. length (pullRequests r)) (repositories s))"
      "totalActionableComments (updateInfo s) =
         sum_list (map (\<lambda>r. sum_list (map (\<lambda>p. length (actionableComments p))
                                            (pullRequests r))) (repositories s))"
      using total by (simp_all add: updateInfo_def foldl_sum)
    have f1: "files (snd (fetchAllData gh ck fs)) prDataFile = Content (JSON_stringify (JSnapshot s))"
      using fetchAllData_snapshot_file [OF facts(2), of gh ck] by (simp only: facts(1))
    have f2: "files (snd (fetchAllData gh ck fs)) lastUpdateFile =
        Content (JSON_stringify (JMetadata (updateInfo s)))"
      using fetchAllData_metadata_file [OF facts(2,3), of gh ck] by (simp only: facts(1))
    from f1 f2 info show ?thesis by blast
  qed
  have second: "fst (fetchAllData gh ck fs) = Inl e \<and>
      files (snd (fetchAllData gh ck fs)) prDataFile =
        Content (JSON_stringify (JSnapshot
          \<lparr>lastUpdate = fetchStartedAt ck,
           repositories = processRepos gh ck (getRepositoriesToMonitor gh ck) []\<rparr>))"
    if "writeError fs prDataFile = None" "writeError fs lastUpdateFile = Some e"
    using that fetchAllData_snapshot_file [OF that(1), of gh ck]
    by (simp add: fetchAllData_fst)
  from both second show ?thesis by blast
qed

text \<open>
  The two files after the refresh of the example, on a file system that takes both
  writes and on one that refuses the second.
\<close>

theorem refresh_writes_snapshot_then_metadata_witness:
  "fst (fetchAllData ex_github ex_clock ex_fs) = Inr ex_snapshot \<and>
   files (snd (fetchAllData ex_github ex_clock ex_fs)) prDataFile =
     Content (JSON_stringify (JSnapshot ex_snapshot)) \<and>
   files (snd (fetchAllData ex_github ex_clock ex_fs)) lastUpdateFile =
     Content (JSON_stringify (JMetadata
       \<lparr>md_lastUpdate = 1700000001000, repositoryCount = 1, totalPRs = 1,
        totalActionableComments = 3\<rparr>)) \<and>
   writeError ex_fs_stale prDataFile = None \<and>
   writeError ex_fs_stale lastUpdateFile = Some (Error ''EACCES: permission denied'') \<and>
   fst (fetchAllData ex_github ex_clock ex_fs_stale) = Inl (Error ''EACCES: permission denied'') \<and>
   files (snd (fetchAllData ex_github ex_clock ex_fs_stale)) prDataFile =
     Content (JSON_stringify (JSnapshot ex_snapshot))"
proof -
  from refresh_writes_snapshot_then_metadata [of ex_github ex_clock ex_fs ex_snapshot] ex_fetch
  obtain m where m: "files (snd (fetchAllData ex_github ex_clock ex_fs)) prDataFile =
      Content (JSON_stringify (JSnapshot ex_snapshot))"
    "files (snd (fetchAllData ex_github ex_clock ex_fs)) lastUpdateFile =
      Content (JSON_stringify (JMetadata m))"
    "md_lastUpdate m = lastUpdate ex_snapshot"
    "repositoryCount m = length (repositories ex_snapshot)"
    "totalPRs m = sum_list (map (\<lambda>r. length (pullRequests r)) (repositories ex_snapshot))"
    "totalActionableComments m =
       sum_list (map (\<lambda>r. sum_list (map (\<lambda>p. length (actionableComments p))
                                      (pullRequests r))) (repositories ex_snapshot))"
    by blast
  have "m = \<lparr>md_lastUpdate = 1700000001000, repositoryCount = 1, totalPRs = 1,
        totalActionableComments = 3\<rparr>"
    using m(3-6) by (simp add: ex_snapshot_def)
  with m(1,2) have 1: "files (snd (fetchAllData ex_github ex_clock ex_fs)) prDataFile =
     Content (JSON_stringify (JSnapshot ex_snapshot))"
   "files (snd (fetchAllData ex_github ex_clock ex_fs)) lastUpdateFile =
     Content (JSON_stringify (JMetadata
       \<lparr>md_lastUpdate = 1700000001000, repositoryCount = 1, totalPRs = 1,
        totalActionableComments = 3\<rparr>))"
    by simp_all
  have s: "writeError ex_fs_stale prDataFile = None"
    "writeError ex_fs_stale lastUpdateFile = Some (Error ''EACCES: permission denied'')"
    using paths_distinct by (simp_all add: ex_fs_stale_def)
  from refresh_writes_snapshot_then_metadata
    [of ex_github ex_clock ex_fs_stale _ "Error ''EACCES: permission denied''"] s
  have 3: "fst (fetchAllData ex_github ex_clock ex_fs_stale) =
      Inl (Error ''EACCES: permission denied'')"
    "files (snd (fetchAllData ex_github ex_clock ex_fs_stale)) prDataFile =
     Content (JSON_stringify (JSnapshot ex_snapshot))"
    by (simp_all only: ex_snapshot_built)
  from ex_fetch 1 s 3 show ?thesis by blast
qed

section \<open>Properties of the cache readers\<close>

text \<open>
  Claim C7. \<open>loadCachedData\<close> and \<open>getLastUpdateInfo\<close> return a value on every
  state of the file system, never an exception; the value is \<open>null\<close> when the file is
  missing and when its text is not JSON (and the value parsed when it is).
\<close>

theorem cache_reads_never_raise:
  "(\<exists>v. loadCachedData fs = Inr v) \<and>
   (\<exists>v. getLastUpdateInfo fs = Inr v) \<and>
   (files fs prDataFile = Missing \<longrightarrow> loadCachedData fs = Inr JNull) \<and>
   (files fs lastUpdateFile = Missing \<longrightarrow> getLastUpdateInfo fs = Inr JNull) \<and>
   (files fs prDataFile = Content (Malformed s) \<longrightarrow> loadCachedData fs = Inr JNull) \<and>
   (files fs lastUpdateFile = Content (Malformed s') \<longrightarrow> getLastUpdateInfo fs = Inr JNull) \<and>
   (files fs prDataFile = Content (Json v) \<longrightarrow> loadCachedData fs = Inr v) \<and>
   (files fs lastUpdateFile = Content (Json v') \<longrightarrow> getLastUpdateInfo fs = Inr v')"
  by (simp add: loadCachedData_def getLastUpdateInfo_def readJsonIfExists_def existsSync_def
      readFileSync_def JSON_parse_def split: sum.splits option.splits file_state.splits
      file_text.splits)

text \<open>
  Missing files and files that were cut short read as \<open>null\<close>; the files the refresh
  of the example leaves read as the snapshot and its metadata.
\<close>

theorem cache_reads_never_raise_witness:
  "files ex_fs prDataFile = Missing \<and> loadCachedData ex_fs = Inr JNull \<and>
   files ex_fs lastUpdateFile = Missing \<and> getLastUpdateInfo ex_fs = Inr JNull \<and>
   files ex_fs_corrupt prDataFile = Content (Malformed ''{ lastUpdate: '') \<and>
   loadCachedData ex_fs_corrupt = Inr JNull \<and>
   files ex_fs_corrupt lastUpdateFile = Content (Malformed ''{ lastUpdate: '') \<and>
   getLastUpdateInfo ex_fs_corrupt = Inr JNull \<and>
   loadCachedData (snd (fetchAllData ex_github ex_clock ex_fs)) = Inr (JSnapshot ex_snapshot) \<and>
   getLastUpdateInfo (snd (fetchAllData ex_github ex_clock ex_fs)) =
     Inr (JMetadata (updateInfo ex_snapshot))"
proof -
  have a: "files ex_fs prDataFile = Missing" "files ex_fs lastUpdateFile = Missing"
    by (simp_all add: ex_fs_def)
  have b: "files ex_fs_corrupt prDataFile = Content (Malformed ''{ lastUpdate: '')"
    "files ex_fs_corrupt lastUpdateFile = Content (Malformed ''{ lastUpdate: '')"
    by (simp_all add: ex_fs_corrupt_def)
  from cache_reads_never_raise [of ex_fs] a
  have 1: "loadCachedData ex_fs = Inr JNull" "getLastUpdateInfo ex_fs = Inr JNull"
    by blast+
  from cache_reads_never_raise [of ex_fs_corrupt "''{ lastUpdate: ''" "''{ lastUpdate: ''"] b
  have 2: "loadCachedData ex_fs_corrupt = Inr JNull" "getLastUpdateInfo ex_fs_corrupt = Inr JNull"
    by blast+
  from cache_reads_never_raise
    [of "snd (fetchAllData ex_github ex_clock ex_fs)" _ _ "JSnapshot ex_snapshot"
        "JMetadata (updateInfo ex_snapshot)"] ex_files_after
  have 3: "loadCachedData (snd (fetchAllData ex_github ex_clock ex_fs)) = Inr (JSnapshot ex_snapshot)"
    "getLastUpdateInfo (snd (fetchAllData ex_github ex_clock ex_fs)) =
       Inr (JMetadata (updateInfo ex_snapshot))"
    by blast+
  from a b 1 2 3 show ?thesis by blast
qed

end
